theory Spec2Isabelle
  imports Complex_Main
begin

section \<open>Numbers\<close>

text \<open>
  The program computes with Python floats and with float64 columns of the numerical
  library, which are binary64 numbers. A value is a finite number, one of the two
  infinities, or NaN; the library uses NaN for a missing entry of a series. A finite
  value carries the real number it stands for. The special values follow IEEE 754 as
  the numerical library applies it (a division by zero yields an infinity or NaN and
  raises nothing). The sign of zero is not modelled.

  Every operation comes twice: as the exact operation on the values (\<open>fadd\<close>,
  \<open>fmul\<close>, ...) and as the binary64 operation (\<open>add64\<close>, \<open>mul64\<close>, ...),
  which is the exact result rounded to the nearest binary64 number. The Python
  expressions of lines 31 and 38 (reading the weights, their sum and the tolerance
  test) are modelled in binary64. The series operations of the numerical library are
  modelled with the exact operations; the weighted sum and the standard deviation are
  modelled in binary64 as well, for the claims that depend on the rounding.
\<close>

datatype pyfloat = Fin real | PInf | NInf | NaN

fun is_finite :: "pyfloat \<Rightarrow> bool" where
  "is_finite (Fin x) = True"
| "is_finite PInf = False"
| "is_finite NInf = False"
| "is_finite NaN = False"

fun isna :: "pyfloat \<Rightarrow> bool" where
  "isna NaN = True"
| "isna (Fin x) = False"
| "isna PInf = False"
| "isna NInf = False"

fun fneg :: "pyfloat \<Rightarrow> pyfloat" where
  "fneg (Fin x) = Fin (- x)"
| "fneg PInf = NInf"
| "fneg NInf = PInf"
| "fneg NaN = NaN"

fun fadd :: "pyfloat \<Rightarrow> pyfloat \<Rightarrow> pyfloat" where
  "fadd (Fin x) (Fin y) = Fin (x + y)"
| "fadd (Fin x) PInf = PInf"
| "fadd (Fin x) NInf = NInf"
| "fadd PInf (Fin y) = PInf"
| "fadd PInf PInf = PInf"
| "fadd PInf NInf = NaN"
| "fadd NInf (Fin y) = NInf"
| "fadd NInf NInf = NInf"
| "fadd NInf PInf = NaN"
| "fadd NaN b = NaN"
| "fadd a NaN = NaN"

definition fsub :: "pyfloat \<Rightarrow> pyfloat \<Rightarrow> pyfloat" where
  "fsub a b = fadd a (fneg b)"

text \<open>The sign of an infinity multiplied or divided by a finite value.\<close>

definition signed_inf :: "bool \<Rightarrow> pyfloat" where
  "signed_inf positive = (if positive then PInf else NInf)"

fun fmul :: "pyfloat \<Rightarrow> pyfloat \<Rightarrow> pyfloat" where
  "fmul (Fin x) (Fin y) = Fin (x * y)"
| "fmul (Fin x) PInf = (if x = 0 then NaN else signed_inf (0 < x))"
| "fmul (Fin x) NInf = (if x = 0 then NaN else signed_inf (x < 0))"
| "fmul PInf (Fin y) = (if y = 0 then NaN else signed_inf (0 < y))"
| "fmul NInf (Fin y) = (if y = 0 then NaN else signed_inf (y < 0))"
| "fmul PInf PInf = PInf"
| "fmul PInf NInf = NInf"
| "fmul NInf PInf = NInf"
| "fmul NInf NInf = PInf"
| "fmul NaN b = NaN"
| "fmul a NaN = NaN"

text \<open>
  Division of float64 values: a zero divisor gives NaN for a zero dividend and an
  infinity otherwise; no exception is raised.
\<close>

fun fdiv :: "pyfloat \<Rightarrow> pyfloat \<Rightarrow> pyfloat" where
  "fdiv (Fin x) (Fin y) =
     (if y = 0 then (if x = 0 then NaN else signed_inf (0 < x)) else Fin (x / y))"
| "fdiv (Fin x) PInf = Fin 0"
| "fdiv (Fin x) NInf = Fin 0"
| "fdiv PInf (Fin y) = signed_inf (0 \<le> y)"
| "fdiv NInf (Fin y) = signed_inf (y < 0)"
| "fdiv PInf PInf = NaN"
| "fdiv PInf NInf = NaN"
| "fdiv NInf PInf = NaN"
| "fdiv NInf NInf = NaN"
| "fdiv NaN b = NaN"
| "fdiv a NaN = NaN"

fun fabs :: "pyfloat \<Rightarrow> pyfloat" where
  "fabs (Fin x) = Fin \<bar>x\<bar>"
| "fabs PInf = PInf"
| "fabs NInf = PInf"
| "fabs NaN = NaN"

text \<open>Comparisons: every comparison with NaN is false.\<close>

fun flt :: "pyfloat \<Rightarrow> pyfloat \<Rightarrow> bool" where
  "flt (Fin x) (Fin y) = (x < y)"
| "flt (Fin x) PInf = True"
| "flt NInf (Fin y) = True"
| "flt NInf PInf = True"
| "flt NaN b = False"
| "flt a NaN = False"
| "flt PInf b = False"
| "flt a NInf = False"

definition fgt :: "pyfloat \<Rightarrow> pyfloat \<Rightarrow> bool" where
  "fgt a b = flt b a"


text \<open>The element-wise maximum and minimum of the numerical library propagate NaN.\<close>

definition fmax :: "pyfloat \<Rightarrow> pyfloat \<Rightarrow> pyfloat" where
  "fmax a b = (if isna a \<or> isna b then NaN else if flt a b then b else a)"

definition fmin :: "pyfloat \<Rightarrow> pyfloat \<Rightarrow> pyfloat" where
  "fmin a b = (if isna a \<or> isna b then NaN else if flt b a then b else a)"

fun fsqrt :: "pyfloat \<Rightarrow> pyfloat" where
  "fsqrt (Fin x) = (if x < 0 then NaN else Fin (sqrt x))"
| "fsqrt PInf = PInf"
| "fsqrt NInf = NaN"
| "fsqrt NaN = NaN"

subsection \<open>Rounding to binary64\<close>

text \<open>
  Rounding a real to the nearest integer, a tie going to the even one; the spacing of the
  binary64 numbers around a positive real (53 significant bits, the exponent not
  below -1022, where the subnormal numbers start); and the rounding of a real to
  binary64, to nearest with ties to even, a result of \<open>2 ^ 1024\<close> or more being the
  overflow to an infinity.
\<close>

definition rhe :: "real \<Rightarrow> int" where
  "rhe y =
     (let f = \<lfloor>y\<rfloor>; d = y - of_int f in
      if d < 1 / 2 then f
      else if 1 / 2 < d then f + 1
      else if even f then f else f + 1)"

definition quantum :: "real \<Rightarrow> real" where
  "quantum a = 2 powi (max \<lfloor>log 2 a\<rfloor> (- 1022) - 52)"

definition r64 :: "real \<Rightarrow> pyfloat" where
  "r64 x =
     (if x = 0 then Fin 0
      else
        (let a = \<bar>x\<bar>;
             r = of_int (rhe (a / quantum a)) * quantum a
         in if 2 powi 1024 \<le> r then signed_inf (0 < x)
            else Fin (if 0 < x then r else - r)))"

fun round64 :: "pyfloat \<Rightarrow> pyfloat" where
  "round64 (Fin x) = r64 x"
| "round64 PInf = PInf"
| "round64 NInf = NInf"
| "round64 NaN = NaN"

definition add64 :: "pyfloat \<Rightarrow> pyfloat \<Rightarrow> pyfloat" where
  "add64 a b = round64 (fadd a b)"

definition sub64 :: "pyfloat \<Rightarrow> pyfloat \<Rightarrow> pyfloat" where
  "sub64 a b = round64 (fsub a b)"

definition mul64 :: "pyfloat \<Rightarrow> pyfloat \<Rightarrow> pyfloat" where
  "mul64 a b = round64 (fmul a b)"

definition div64 :: "pyfloat \<Rightarrow> pyfloat \<Rightarrow> pyfloat" where
  "div64 a b = round64 (fdiv a b)"

definition sqrt64 :: "pyfloat \<Rightarrow> pyfloat" where
  "sqrt64 a = round64 (fsqrt a)"

type_synonym series = "pyfloat list"

text \<open>
  Python's built-in \<open>sum\<close> on floats: left to right, starting from 0, every addition
  rounded (the plain accumulation of Python up to 3.11; later versions carry a
  correction term for the rounding errors along).
\<close>

definition py_sum :: "pyfloat list \<Rightarrow> pyfloat" where
  "py_sum xs = foldl add64 (Fin 0) xs"


section \<open>Text input\<close>

text \<open>
  The two text inputs are strings. Characters are modelled in the ASCII range: the
  whitespace that \<open>str.strip\<close> removes is tab, line feed, vertical tab, form feed,
  carriage return, the separators 0x1C to 0x1F and space; \<open>str.upper\<close> maps the
  letters a to z to A to Z and leaves every other character as it is.
\<close>

definition is_space :: "char \<Rightarrow> bool" where
  "is_space c = (c \<in> set [CHR 0x09, CHR 0x0A, CHR 0x0B, CHR 0x0C, CHR 0x0D,
                           CHR 0x1C, CHR 0x1D, CHR 0x1E, CHR 0x1F, CHR '' ''])"

definition strip :: "string \<Rightarrow> string" where
  "strip s = rev (dropWhile is_space (rev (dropWhile is_space s)))"

text \<open>\<open>s.split(sep)\<close> for a one-character separator: one more field than separators.\<close>

fun split_on :: "char \<Rightarrow> string \<Rightarrow> string list" where
  "split_on sep [] = [[]]"
| "split_on sep (c # cs) =
     (if c = sep then [] # split_on sep cs
      else (case split_on sep cs of
              [] \<Rightarrow> [[c]]
            | w # ws \<Rightarrow> (c # w) # ws))"

definition is_lower :: "char \<Rightarrow> bool" where
  "is_lower c = (c \<in> set ''abcdefghijklmnopqrstuvwxyz'')"

definition upper_char :: "char \<Rightarrow> char" where
  "upper_char c =
     (case map_of (zip ''abcdefghijklmnopqrstuvwxyz'' ''ABCDEFGHIJKLMNOPQRSTUVWXYZ'') c of
        Some u \<Rightarrow> u
      | None \<Rightarrow> c)"

definition lower_char :: "char \<Rightarrow> char" where
  "lower_char c =
     (case map_of (zip ''ABCDEFGHIJKLMNOPQRSTUVWXYZ'' ''abcdefghijklmnopqrstuvwxyz'') c of
        Some u \<Rightarrow> u
      | None \<Rightarrow> c)"

definition upper :: "string \<Rightarrow> string" where
  "upper s = map upper_char s"

text \<open>Line 26: \<open>etf_list = [e.strip().upper() for e in etfs.split(",")]\<close>.\<close>

definition parse_tickers :: "string \<Rightarrow> string list" where
  "parse_tickers etfs = map (\<lambda>e. upper (strip e)) (split_on CHR '','' etfs)"

subsection \<open>Python's \<open>float\<close> on a string\<close>

text \<open>
  The built-in reads, after stripping whitespace, an optional sign followed by
  \<open>inf\<close>, \<open>infinity\<close> or \<open>nan\<close> in any letter case, or by a decimal number
  \<open>[digitpart] "." digitpart | digitpart ["."]\<close> with an optional exponent
  \<open>("e" | "E") [sign] digitpart\<close>, where a digit part is a run of digits in which single
  underscores may stand between two digits. Anything else raises ValueError, which is
  the result \<open>None\<close> here. The number read is rounded to binary64, a number too large
  to an infinity.
\<close>

definition is_digit :: "char \<Rightarrow> bool" where
  "is_digit c = (c \<in> set ''0123456789'')"

definition digit_val :: "char \<Rightarrow> nat" where
  "digit_val c = of_char c - 48"

fun digitpart_ok :: "string \<Rightarrow> bool" where
  "digitpart_ok [] = False"
| "digitpart_ok [c] = is_digit c"
| "digitpart_ok (c # d # cs) =
     (is_digit c \<and> (if d = CHR ''_'' then digitpart_ok cs else digitpart_ok (d # cs)))"

definition digits_value :: "string \<Rightarrow> nat" where
  "digits_value s = foldl (\<lambda>a c. 10 * a + digit_val c) 0 (filter is_digit s)"

fun strip_sign :: "string \<Rightarrow> bool \<times> string" where
  "strip_sign [] = (False, [])"
| "strip_sign (c # cs) =
     (if c = CHR ''-'' then (True, cs)
      else if c = CHR ''+'' then (False, cs)
      else (False, c # cs))"

definition parse_exponent :: "string \<Rightarrow> int option" where
  "parse_exponent rest =
     (case rest of
        [] \<Rightarrow> Some 0
      | e # es \<Rightarrow>
          (case strip_sign es of
             (neg, ds) \<Rightarrow>
               if digitpart_ok ds
               then Some (if neg then - int (digits_value ds) else int (digits_value ds))
               else None))"

text \<open>A number as mantissa \<open>m\<close> and decimal exponent \<open>k\<close>: its value is \<open>m * 10 ^ k\<close>.\<close>

definition parse_number :: "string \<Rightarrow> (nat \<times> int) option" where
  "parse_number s =
     (let is_e = (\<lambda>c. c = CHR ''e'' \<or> c = CHR ''E'');
          mant = takeWhile (\<lambda>c. \<not> is_e c) s;
          rest = dropWhile (\<lambda>c. \<not> is_e c) s;
          ip = takeWhile (\<lambda>c. c \<noteq> CHR ''.'') mant;
          dotrest = dropWhile (\<lambda>c. c \<noteq> CHR ''.'') mant
      in case parse_exponent rest of
           None \<Rightarrow> None
         | Some ex \<Rightarrow>
             (case dotrest of
                [] \<Rightarrow> if digitpart_ok ip then Some (digits_value ip, ex) else None
              | dot # fp \<Rightarrow>
                  if (digitpart_ok ip \<and> (fp = [] \<or> digitpart_ok fp))
                     \<or> (ip = [] \<and> digitpart_ok fp)
                  then Some (digits_value (ip @ fp),
                             ex - int (length (filter is_digit fp)))
                  else None))"

definition scale10 :: "real \<Rightarrow> int \<Rightarrow> real" where
  "scale10 m k = (if 0 \<le> k then m * 10 ^ nat k else m / 10 ^ nat (- k))"

definition py_float :: "string \<Rightarrow> pyfloat option" where
  "py_float s =
     (case strip_sign (strip s) of
        (neg, body) \<Rightarrow>
          (let low = map lower_char body in
           if low = ''inf'' \<or> low = ''infinity'' then Some (if neg then NInf else PInf)
           else if low = ''nan'' then Some NaN
           else (case parse_number body of
                   None \<Rightarrow> None
                 | Some (m, k) \<Rightarrow>
                     Some (r64 (if neg then - scale10 (real m) k else scale10 (real m) k)))))"

datatype py_exn = ValueError | FetchError

text \<open>
  Line 31: \<open>weights_list = [float(w.strip()) for w in weights_input.split(",")]\<close>.
  The comprehension converts the fields from left to right; the first field that is
  not a number raises ValueError and no list is built.
\<close>

fun floats_of :: "string list \<Rightarrow> py_exn + pyfloat list" where
  "floats_of [] = Inr []"
| "floats_of (w # ws) =
     (case py_float (strip w) of
        None \<Rightarrow> Inl ValueError
      | Some x \<Rightarrow> (case floats_of ws of Inl e \<Rightarrow> Inl e | Inr xs \<Rightarrow> Inr (x # xs)))"

definition parse_weights :: "string \<Rightarrow> py_exn + pyfloat list" where
  "parse_weights weights_input = floats_of (split_on CHR '','' weights_input)"


section \<open>Series operations of the numerical library\<close>

text \<open>
  A series is one column of a date-indexed table; a table is the list of its columns,
  all of the same length, in the order of \<open>etf_list\<close>. The library aligns the weights
  with the columns by ticker label; the model takes the columns as already aligned.
\<close>

text \<open>\<open>1 + s\<close> and \<open>s - 1\<close> on a series, element by element.\<close>

definition series_add1 :: "series \<Rightarrow> series" where
  "series_add1 s = map (fadd (Fin 1)) s"

definition series_sub1 :: "series \<Rightarrow> series" where
  "series_sub1 s = map (\<lambda>v. fsub v (Fin 1)) s"

text \<open>
  \<open>pct_change\<close>: each entry divided by the previous one, minus 1; the first entry has
  no previous one and is NaN. (Without filling of missing prices, which older versions
  of the library did first; on prices with no missing value the two agree.)
\<close>

definition pct_change :: "series \<Rightarrow> series" where
  "pct_change s =
     (case s of
        [] \<Rightarrow> []
      | p # ps \<Rightarrow> NaN # map2 (\<lambda>cur prev. fsub (fdiv cur prev) (Fin 1)) ps s)"

text \<open>
  \<open>cumprod\<close> and \<open>cummax\<close> skip missing entries: a NaN entry stays NaN in the result
  and leaves the running product or maximum as it was.
\<close>

fun cumprod_from :: "pyfloat \<Rightarrow> series \<Rightarrow> series" where
  "cumprod_from a [] = []"
| "cumprod_from a (x # xs) =
     (if isna x then NaN # cumprod_from a xs
      else fmul a x # cumprod_from (fmul a x) xs)"

definition cumprod :: "series \<Rightarrow> series" where
  "cumprod s = cumprod_from (Fin 1) s"

fun cummax_from :: "pyfloat \<Rightarrow> series \<Rightarrow> series" where
  "cummax_from a [] = []"
| "cummax_from a (x # xs) =
     (if isna x then NaN # cummax_from a xs
      else fmax a x # cummax_from (fmax a x) xs)"

definition cummax :: "series \<Rightarrow> series" where
  "cummax s = cummax_from NInf s"

text \<open>The reductions \<open>mean\<close>, \<open>std\<close> and \<open>min\<close> skip missing entries as well.\<close>

definition dropna :: "series \<Rightarrow> series" where
  "dropna s = filter (\<lambda>v. \<not> isna v) s"

definition series_mean :: "series \<Rightarrow> pyfloat" where
  "series_mean s =
     (let vs = dropna s in
      if vs = [] then NaN
      else fdiv (foldl fadd (Fin 0) vs) (Fin (real (length vs))))"

text \<open>
  \<open>std\<close> with the library's default of one delta degree of freedom: the mean of the
  entries, the sum of the squared differences from it, divided by the count minus 1,
  and the square root of that; NaN when fewer than two entries are present.
\<close>

definition series_std :: "series \<Rightarrow> pyfloat" where
  "series_std s =
     (let vs = dropna s; n = length vs in
      if n \<le> 1 then NaN
      else
        (let avg = fdiv (foldl fadd (Fin 0) vs) (Fin (real n));
             sqr = map (\<lambda>v. fmul (fsub avg v) (fsub avg v)) vs
         in fsqrt (fdiv (foldl fadd (Fin 0) sqr) (Fin (real (n - 1))))))"

definition series_min :: "series \<Rightarrow> pyfloat" where
  "series_min s =
     (case dropna s of
        [] \<Rightarrow> NaN
      | v # vs \<Rightarrow> foldl fmin v vs)"

text \<open>
  \<open>DataFrame.dot\<close> with a weight series: for every date the sum over the tickers of
  the entry times the ticker's weight. NaN is an ordinary operand of the sum, so it is
  not skipped. A table whose number of columns differs from the number of weights is
  not aligned with them and raises ValueError.
\<close>

definition nrows :: "series list \<Rightarrow> nat" where
  "nrows cols = (case cols of [] \<Rightarrow> 0 | c # cs \<Rightarrow> length c)"

definition row_at :: "series list \<Rightarrow> nat \<Rightarrow> pyfloat list" where
  "row_at cols t = map (\<lambda>c. c ! t) cols"

definition weighted_sum :: "pyfloat list \<Rightarrow> pyfloat list \<Rightarrow> pyfloat" where
  "weighted_sum row ws = foldl fadd (Fin 0) (map2 fmul row ws)"

definition dot :: "series list \<Rightarrow> pyfloat list \<Rightarrow> py_exn + series" where
  "dot cols ws =
     (if length cols \<noteq> length ws then Inl ValueError
      else Inr (map (\<lambda>t. weighted_sum (row_at cols t) ws) [0..<nrows cols]))"



section \<open>The pipeline\<close>

text \<open>Lines 49 to 62: the returns and the risk metrics.\<close>

definition daily_returns :: "series list \<Rightarrow> series list" where
  "daily_returns adj_close = map pct_change adj_close"

definition cumulative_returns :: "series \<Rightarrow> series" where
  "cumulative_returns dr = series_sub1 (cumprod (series_add1 dr))"

definition portfolio_daily_returns :: "series list \<Rightarrow> pyfloat list \<Rightarrow> py_exn + series" where
  "portfolio_daily_returns dr weights_list = dot dr weights_list"

definition portfolio_cumulative_returns :: "series \<Rightarrow> series" where
  "portfolio_cumulative_returns pdr = series_sub1 (cumprod (series_add1 pdr))"

definition portfolio_volatility :: "series \<Rightarrow> pyfloat" where
  "portfolio_volatility pdr = fmul (series_std pdr) (Fin (sqrt 252))"

definition portfolio_annual_return :: "series \<Rightarrow> pyfloat" where
  "portfolio_annual_return pdr = fmul (series_mean pdr) (Fin 252)"

definition sharpe_ratio :: "series \<Rightarrow> pyfloat" where
  "sharpe_ratio pdr = fdiv (portfolio_annual_return pdr) (portfolio_volatility pdr)"

definition rolling_max :: "series \<Rightarrow> series" where
  "rolling_max pdr = cummax (cumprod (series_add1 pdr))"

definition drawdown :: "series \<Rightarrow> series" where
  "drawdown pdr = series_sub1 (map2 fdiv (cumprod (series_add1 pdr)) (rolling_max pdr))"

definition max_drawdown :: "series \<Rightarrow> pyfloat" where
  "max_drawdown pdr = series_min (drawdown pdr)"

text \<open>
  The mean, the standard deviation and the three metrics of lines 57 to 59 in binary64:
  the same steps, every operation rounded, a sum accumulated from the first entry to
  the last (the order of the library for a short series). \<open>np.sqrt(252)\<close> is the float
  nearest to the square root.
\<close>

definition series_mean64 :: "series \<Rightarrow> pyfloat" where
  "series_mean64 s =
     (let vs = dropna s in
      if vs = [] then NaN
      else div64 (foldl add64 (Fin 0) vs) (Fin (real (length vs))))"

definition series_std64 :: "series \<Rightarrow> pyfloat" where
  "series_std64 s =
     (let vs = dropna s; n = length vs in
      if n \<le> 1 then NaN
      else
        (let avg = div64 (foldl add64 (Fin 0) vs) (Fin (real n));
             sqr = map (\<lambda>v. mul64 (sub64 avg v) (sub64 avg v)) vs
         in sqrt64 (div64 (foldl add64 (Fin 0) sqr) (Fin (real (n - 1))))))"

definition portfolio_volatility64 :: "series \<Rightarrow> pyfloat" where
  "portfolio_volatility64 pdr = mul64 (series_std64 pdr) (r64 (sqrt 252))"

definition portfolio_annual_return64 :: "series \<Rightarrow> pyfloat" where
  "portfolio_annual_return64 pdr = mul64 (series_mean64 pdr) (Fin 252)"

definition sharpe_ratio64 :: "series \<Rightarrow> pyfloat" where
  "sharpe_ratio64 pdr = div64 (portfolio_annual_return64 pdr) (portfolio_volatility64 pdr)"

text \<open>
  What a run shows and does, in order: the widgets and messages of the page, the one
  request to the market-data provider, the metric cards, the charts and the export
  buttons. A metric card and a chart carry the numbers they show, an export button the
  table it offers.
\<close>

datatype period = P6mo | P1y | P2y | P5y

datatype event =
    PageConfig
  | Title string
  | SidebarHeader string
  | TextInput string
  | Selectbox string
  | ErrorMsg string
  | Download "string list" period
  | Subheader string
  | Metric string pyfloat
  | LineChart string "(string \<times> series) list"
  | DownloadButton string "series list"

text \<open>
  A run ends by completing the script, by \<open>st.stop()\<close>, or by an exception that nothing
  catches.
\<close>

datatype outcome = Completed | Stopped | Raised py_exn

text \<open>The market-data provider answers with the table of closing prices or fails.\<close>

type_synonym provider = "string list \<Rightarrow> period \<Rightarrow> py_exn + series list"

text \<open>
  Lines 34 to 40: the message of the failing check, if one fails. (The warning sign
  that starts each message in the source is outside ASCII and is left out.)
\<close>

definition validate :: "string list \<Rightarrow> pyfloat list \<Rightarrow> string option" where
  "validate etf_list weights_list =
     (if length weights_list \<noteq> length etf_list
      then Some ''Number of weights must match number of ETFs''
      else if fgt (fabs (sub64 (py_sum weights_list) (Fin 1))) (r64 (1 / 1000))
      then Some ''Weights must sum to 1. Please adjust.''
      else None)"

text \<open>Lines 49 to 93, once the prices are there: everything is computed, then shown.\<close>

definition present :: "string list \<Rightarrow> pyfloat list \<Rightarrow> series list \<Rightarrow> py_exn + event list" where
  "present etf_list weights_list adj_close =
     (let dr = daily_returns adj_close;
          cr = map cumulative_returns dr
      in case portfolio_daily_returns dr weights_list of
           Inl e \<Rightarrow> Inl e
         | Inr pdr \<Rightarrow>
             Inr [Subheader '' Portfolio Risk Metrics'',
                  Metric ''Annualized Return'' (portfolio_annual_return pdr),
                  Metric ''Annualized Volatility'' (portfolio_volatility pdr),
                  Metric ''Sharpe Ratio'' (sharpe_ratio pdr),
                  Metric ''Max Drawdown'' (max_drawdown pdr),
                  Subheader ''Cumulative Returns of ETFs'',
                  LineChart ''Cumulative Returns'' (zip etf_list cr),
                  Subheader ''Portfolio Cumulative Return'',
                  LineChart ''Portfolio Cumulative Return''
                    [(''Portfolio'', portfolio_cumulative_returns pdr)],
                  Subheader '' Download Data'',
                  DownloadButton ''ETF Prices CSV'' adj_close,
                  DownloadButton ''Daily Returns CSV'' dr,
                  DownloadButton ''Portfolio Daily Returns CSV'' [pdr]])"

text \<open>Lines 33 to 93 on the parsed lists.\<close>

definition pipeline ::
  "provider \<Rightarrow> string list \<Rightarrow> period \<Rightarrow> pyfloat list \<Rightarrow> event list \<times> outcome" where
  "pipeline yf_download etf_list per weights_list =
     (case validate etf_list weights_list of
        Some msg \<Rightarrow> ([ErrorMsg msg], Stopped)
      | None \<Rightarrow>
          (case yf_download etf_list per of
             Inl e \<Rightarrow> ([Download etf_list per], Raised e)
           | Inr adj_close \<Rightarrow>
               (case present etf_list weights_list adj_close of
                  Inl e \<Rightarrow> ([Download etf_list per], Raised e)
                | Inr shown \<Rightarrow> (Download etf_list per # shown, Completed))))"

text \<open>The whole script on the three inputs of the sidebar.\<close>

definition page_head :: "event list" where
  "page_head =
     [PageConfig,
      Title '' ETF Tracker Dashboard'',
      SidebarHeader ''Portfolio Settings'',
      TextInput ''Enter ETF tickers (comma separated)'',
      Selectbox ''Select period'',
      TextInput ''Enter weights (comma separated, must sum to 1)'']"

definition run :: "provider \<Rightarrow> string \<Rightarrow> period \<Rightarrow> string \<Rightarrow> event list \<times> outcome" where
  "run yf_download etfs per weights_input =
     (let etf_list = parse_tickers etfs in
      case parse_weights weights_input of
        Inl e \<Rightarrow> (page_head, Raised e)
      | Inr weights_list \<Rightarrow>
          (case pipeline yf_download etf_list per weights_list of
             (shown, out) \<Rightarrow> (page_head @ shown, out)))"

text \<open>The events that are network access, validation messages and results.\<close>

fun is_download :: "event \<Rightarrow> bool" where
  "is_download (Download ts per) = True"
| "is_download e = False"

fun is_error_msg :: "event \<Rightarrow> bool" where
  "is_error_msg (ErrorMsg m) = True"
| "is_error_msg e = False"

fun is_result :: "event \<Rightarrow> bool" where
  "is_result (Subheader h) = True"
| "is_result (Metric l v) = True"
| "is_result (LineChart l cs) = True"
| "is_result (DownloadButton l tb) = True"
| "is_result e = False"


section \<open>Predicates of the claims\<close>

text \<open>A run halts with a validation error: it was stopped and showed an error message.\<close>

definition halts_with_validation_error :: "event list \<times> outcome \<Rightarrow> bool" where
  "halts_with_validation_error r =
     (snd r = Stopped \<and> (\<exists>e \<in> set (fst r). is_error_msg e))"

text \<open>
  The condition of the specification on the two lists: the lengths differ, or the sum
  of the weights is further than 0.001 from 1. The sum is the float that \<open>sum\<close>
  returns; its distance from 1 is compared with 0.001 as real numbers, an infinite sum
  being further away and a NaN sum, which compares false with everything, not.
\<close>

fun beyond_tolerance :: "pyfloat \<Rightarrow> bool" where
  "beyond_tolerance (Fin x) = (1 / 1000 < \<bar>x - 1\<bar>)"
| "beyond_tolerance PInf = True"
| "beyond_tolerance NInf = True"
| "beyond_tolerance NaN = False"

definition weights_rejected :: "string list \<Rightarrow> pyfloat list \<Rightarrow> bool" where
  "weights_rejected etf_list weights_list =
     (length weights_list \<noteq> length etf_list \<or> beyond_tolerance (py_sum weights_list))"

text \<open>A value that some rounding to binary64 returns.\<close>

definition rounded :: "pyfloat \<Rightarrow> bool" where
  "rounded s = (\<exists>v. s = round64 v)"


text \<open>
  A trimmed string neither starts nor ends with whitespace; an upper-cased string
  holds no lower-case letter.
\<close>

definition trimmed :: "string \<Rightarrow> bool" where
  "trimmed e = (e = [] \<or> (\<not> is_space (hd e) \<and> \<not> is_space (last e)))"

definition uppercased :: "string \<Rightarrow> bool" where
  "uppercased e = (\<forall>c \<in> set e. \<not> is_lower c)"

text \<open>
  The comma-separated fields of a text are the non-empty list of comma-free strings
  that, joined with commas, give the text back. A ticker is read from a field when the
  field is whitespace, a trimmed core and whitespace again, and the ticker is the
  core with its letters in upper case: upper-cased, and equal to the core when the case
  of the letters is ignored.
\<close>

fun join_commas :: "string list \<Rightarrow> string" where
  "join_commas [] = []"
| "join_commas [f] = f"
| "join_commas (f # g # fs) = f @ CHR '','' # join_commas (g # fs)"

definition fields_of :: "string \<Rightarrow> string list \<Rightarrow> bool" where
  "fields_of text fields =
     (fields \<noteq> [] \<and> join_commas fields = text
      \<and> (\<forall>f \<in> set fields. CHR '','' \<notin> set f))"

definition is_ticker_of :: "string \<Rightarrow> string \<Rightarrow> bool" where
  "is_ticker_of e f =
     (\<exists>pre core post.
        f = pre @ core @ post
        \<and> (\<forall>c \<in> set pre. is_space c) \<and> (\<forall>c \<in> set post. is_space c)
        \<and> trimmed core
        \<and> uppercased e \<and> map lower_char e = map lower_char core)"

text \<open>Two finite numbers within a tolerance of each other, and two series entry by entry.\<close>

fun close_to :: "real \<Rightarrow> pyfloat \<Rightarrow> pyfloat \<Rightarrow> bool" where
  "close_to tol (Fin a) (Fin b) = (\<bar>a - b\<bar> \<le> tol)"
| "close_to tol a b = False"

definition all_close :: "real \<Rightarrow> series \<Rightarrow> series \<Rightarrow> bool" where
  "all_close tol xs ys = list_all2 (close_to tol) xs ys"



text \<open>
  The product of \<open>1 + dr[i]\<close> over the dates \<open>lo \<le> i \<le> t\<close>, every factor taking
  part, a missing one as NaN; and the equality of floats, which NaN never satisfies.
\<close>

definition compound :: "series \<Rightarrow> nat \<Rightarrow> nat \<Rightarrow> pyfloat" where
  "compound dr lo t = foldl fmul (Fin 1) (map (fadd (Fin 1)) (drop lo (take (Suc t) dr)))"

definition feq :: "pyfloat \<Rightarrow> pyfloat \<Rightarrow> bool" where
  "feq a b = (\<not> isna a \<and> \<not> isna b \<and> a = b)"

text \<open>The growth factors of a real price series after the price \<open>prev\<close>.\<close>

fun ratios_from :: "real \<Rightarrow> real list \<Rightarrow> real list" where
  "ratios_from prev [] = []"
| "ratios_from prev (p # ps) = p / prev # ratios_from p ps"





section \<open>Properties of the rounding\<close>

text \<open>
  How a rounding is evaluated (the binade \<open>k\<close> of the number and the integer \<open>n\<close>
  nearest to its multiple of the spacing are given and checked), and what the tolerance
  test of line 38 needs: a float between 1/2 and 2 is a multiple of \<open>2 ^ -53\<close>, its
  difference from 1 is computed without error, and no such difference lies between the
  number 0.001 and the float 0.001.
\<close>

lemma rhe_unique: "\<bar>y - of_int n\<bar> < 1 / 2 \<Longrightarrow> rhe y = n"
proof -
  assume a: "\<bar>y - of_int n\<bar> < 1 / 2"
  then have lo: "of_int n - 1 / 2 < y" and hi: "y < of_int n + 1 / 2"
    by linarith+
  have "of_int (n - 1) \<le> y" using lo by simp
  then have l: "n - 1 \<le> \<lfloor>y\<rfloor>" by (simp only: le_floor_iff)
  have "y < of_int n + 1" using hi by simp
  then have u: "\<lfloor>y\<rfloor> \<le> n" by (simp only: floor_le_iff)
  from l u consider "\<lfloor>y\<rfloor> = n" | "\<lfloor>y\<rfloor> = n - 1" by linarith
  then show ?thesis
  proof cases
    case 1
    then have "y - of_int \<lfloor>y\<rfloor> < 1 / 2" using hi by simp
    with 1 show ?thesis by (simp add: rhe_def Let_def)
  next
    case 2
    then have "1 / 2 < y - of_int \<lfloor>y\<rfloor>" using lo by simp
    with 2 show ?thesis by (simp add: rhe_def Let_def)
  qed
qed

lemma floor_log2:
  assumes "0 < a" and "2 powi k \<le> a" and "a < 2 powi (k + 1)"
  shows "\<lfloor>log 2 a\<rfloor> = k"
proof -
  have p1: "2 powr real_of_int k = (2::real) powi k"
    by (simp add: powr_real_of_int')
  have "2 powr real_of_int (k + 1) = (2::real) powi (k + 1)"
    by (rule powr_real_of_int') simp_all
  then have p2: "2 powr (real_of_int k + 1) = (2::real) powi (k + 1)"
    by simp
  show ?thesis
    using assms by (simp add: floor_log_eq_powr_iff p1 p2)
qed

lemma rhe_tie:
  assumes "y = of_int n + 1 / 2 \<or> y = of_int n - 1 / 2" and "even n"
  shows "rhe y = n"
  using assms(1)
proof
  assume y: "y = of_int n + 1 / 2"
  have "\<lfloor>of_int n + (1 / 2 :: real)\<rfloor> = n" by (simp add: floor_eq_iff)
  with y assms(2) show ?thesis by (simp add: rhe_def Let_def)
next
  assume y: "y = of_int n - 1 / 2"
  have "\<lfloor>of_int n - (1 / 2 :: real)\<rfloor> = n - 1" by (simp add: floor_eq_iff)
  with y assms(2) show ?thesis by (simp add: rhe_def Let_def)
qed

lemma rhe_below: "y \<le> of_int m \<Longrightarrow> rhe y \<le> m"
proof (cases "y = of_int m")
  case True
  then show ?thesis using rhe_unique [of y m] by simp
next
  case False
  assume "y \<le> of_int m"
  with False have "y < of_int m" by simp
  then have "\<lfloor>y\<rfloor> < m" by (simp only: floor_less_iff)
  moreover have "rhe y \<le> \<lfloor>y\<rfloor> + 1" by (simp add: rhe_def Let_def)
  ultimately show ?thesis by simp
qed

lemma r64_eval:
  assumes "0 < x" and "- 1022 \<le> k" and "k \<le> 1022"
    and "2 powi k \<le> x" and "x < 2 powi (k + 1)"
    and "rhe (x / 2 powi (k - 52)) = n"
    and "v = of_int n * 2 powi (k - 52)"
  shows "r64 x = Fin v"
proof -
  have e: "\<lfloor>log 2 x\<rfloor> = k" using assms(1,4,5) by (rule floor_log2)
  have q: "quantum \<bar>x\<bar> = 2 powi (k - 52)"
    using assms(1,2) e by (simp add: quantum_def max_def)
  have qpos: "(0::real) < 2 powi (k - 52)" by simp
  have "x / 2 powi (k - 52) < 2 powi (k + 1) / 2 powi (k - 52)"
    using assms(5) qpos by (simp add: divide_strict_right_mono)
  also have "\<dots> = 2 powi 53"
    by (simp add: power_int_diff [symmetric])
  finally have "x / 2 powi (k - 52) \<le> real_of_int (2 ^ 53)" by simp
  then have "rhe (x / 2 powi (k - 52)) \<le> 2 ^ 53" by (rule rhe_below)
  then have "n \<le> 2 ^ 53" by (simp only: assms(6))
  then have "real_of_int n \<le> real_of_int (2 ^ 53)" by (simp only: of_int_le_iff)
  then have nle: "real_of_int n \<le> 2 ^ 53" by simp
  have "real_of_int n * 2 powi (k - 52) \<le> 2 ^ 53 * 2 powi (k - 52)"
    using nle qpos by (simp add: mult_right_mono)
  also have "\<dots> = 2 powi (k + 1)"
    using power_int_add [of "2::real" 53 "k - 52"] by (simp add: add.commute)
  also have "\<dots> < 2 powi 1024"
    using assms(3) by (intro power_int_strict_increasing) simp_all
  finally have small: "\<not> 2 powi 1024 \<le> real_of_int n * 2 powi (k - 52)" by simp
  show ?thesis
    using assms(1,6,7) q small by (simp add: r64_def Let_def)
qed

lemma r64_nearest:
  assumes "0 < x" and "- 1022 \<le> k" and "k \<le> 1022"
    and "2 powi k \<le> x" and "x < 2 powi (k + 1)"
    and "\<bar>x / 2 powi (k - 52) - of_int n\<bar> < 1 / 2"
    and "v = of_int n * 2 powi (k - 52)"
  shows "r64 x = Fin v"
  using assms(1-5) rhe_unique [OF assms(6)] assms(7) by (rule r64_eval)

lemma r64_tie:
  assumes "0 < x" and "- 1022 \<le> k" and "k \<le> 1022"
    and "2 powi k \<le> x" and "x < 2 powi (k + 1)"
    and "x / 2 powi (k - 52) = of_int n + 1 / 2 \<or> x / 2 powi (k - 52) = of_int n - 1 / 2"
    and "even n"
    and "v = of_int n * 2 powi (k - 52)"
  shows "r64 x = Fin v"
  using assms(1-5) rhe_tie [OF assms(6,7)] assms(8) by (rule r64_eval)

lemma r64_0: "r64 0 = Fin 0"
  by (simp add: r64_def)

lemma r64_minus: "r64 (- x) = fneg (r64 x)"
  by (simp add: r64_def Let_def signed_inf_def)

lemma binade:
  assumes "0 < a"
  shows "2 powi \<lfloor>log 2 a\<rfloor> \<le> a \<and> a < 2 powi (\<lfloor>log 2 a\<rfloor> + 1)"
proof -
  define k where "k = \<lfloor>log 2 a\<rfloor>"
  have p1: "2 powr real_of_int k = (2::real) powi k"
    by (simp add: powr_real_of_int')
  have "2 powr real_of_int (k + 1) = (2::real) powi (k + 1)"
    by (rule powr_real_of_int') simp_all
  then have p2: "2 powr (real_of_int k + 1) = (2::real) powi (k + 1)"
    by simp
  have "2 powr real_of_int k \<le> a \<and> a < 2 powr (real_of_int k + 1)"
    using assms floor_log_eq_powr_iff [of a 2 k] by (simp add: k_def)
  then have "2 powi k \<le> a \<and> a < 2 powi (k + 1)" by (simp only: p1 p2)
  then show ?thesis by (simp only: k_def)
qed

lemma pow2_less_iff: "(2::real) powi m < 2 powi n \<longleftrightarrow> m < n"
proof
  assume a: "(2::real) powi m < 2 powi n"
  show "m < n"
  proof (rule ccontr)
    assume "\<not> m < n"
    then have "n \<le> m" by simp
    then have "(2::real) powi n \<le> 2 powi m" by (intro power_int_increasing) simp_all
    with a show False by simp
  qed
next
  assume "m < n"
  then show "(2::real) powi m < 2 powi n" by (intro power_int_strict_increasing) simp_all
qed

lemma pow2_le_iff: "(2::real) powi m \<le> 2 powi n \<longleftrightarrow> m \<le> n"
  using pow2_less_iff [of n m] by (simp add: not_less [symmetric])

lemma rhe_of_int: "rhe (of_int m) = m"
  by (rule rhe_unique) simp

lemma rhe_ge: "of_int m \<le> y \<Longrightarrow> m \<le> rhe y"
proof -
  assume "of_int m \<le> y"
  then have "m \<le> \<lfloor>y\<rfloor>" by (simp only: le_floor_iff)
  moreover have "\<lfloor>y\<rfloor> \<le> rhe y" by (simp add: rhe_def Let_def)
  ultimately show ?thesis by simp
qed

lemma r64_overflow:
  assumes "2 powi 1024 \<le> x"
  shows "r64 x = PInf"
proof -
  have pos: "0 < x" using assms by (rule less_le_trans [rotated]) simp
  define e where "e = \<lfloor>log 2 x\<rfloor>"
  have b: "2 powi e \<le> x" "x < 2 powi (e + 1)" using binade [OF pos] by (simp_all add: e_def)
  have "(2::real) powi 1024 < 2 powi (e + 1)" using assms b(2) by simp
  then have "1024 < e + 1" by (simp only: pow2_less_iff)
  then have e: "1024 \<le> e" by simp
  then have q: "quantum \<bar>x\<bar> = 2 powi (e - 52)"
    using pos by (simp add: quantum_def e_def max_def)
  have qpos: "(0::real) < 2 powi (e - 52)" by simp
  have "2 powi e / 2 powi (e - 52) = (2::real) powi 52"
    by (simp add: power_int_diff [symmetric])
  then have "real_of_int (2 ^ 52) \<le> x / 2 powi (e - 52)"
    using b(1) qpos divide_right_mono [of "2 powi e" x "2 powi (e - 52)"] by simp
  then have n: "2 ^ 52 \<le> rhe (x / 2 powi (e - 52))" by (rule rhe_ge)
  then have "real_of_int (2 ^ 52) \<le> real_of_int (rhe (x / 2 powi (e - 52)))"
    by (simp only: of_int_le_iff)
  then have "2 ^ 52 * 2 powi (e - 52) \<le> real_of_int (rhe (x / 2 powi (e - 52))) * 2 powi (e - 52)"
    using qpos by (simp add: mult_right_mono)
  moreover have "2 ^ 52 * 2 powi (e - 52) = (2::real) powi e"
    using power_int_add [of "2::real" 52 "e - 52"] by simp
  moreover have "(2::real) powi 1024 \<le> 2 powi e"
    using e by (intro power_int_increasing) simp_all
  ultimately have "2 powi 1024 \<le> real_of_int (rhe (x / 2 powi (e - 52))) * 2 powi (e - 52)"
    by linarith
  then show ?thesis
    using pos q by (simp add: r64_def Let_def signed_inf_def)
qed

lemma pow2_split: "(2::real) powi (a + b) = 2 powi a * 2 powi b"
  by (rule power_int_add) simp

lemma r64_pos_shape:
  assumes "0 < x"
  obtains n E where "E = max \<lfloor>log 2 x\<rfloor> (- 1022)"
    and "n = rhe (x / 2 powi (E - 52))"
    and "0 \<le> n" and "n \<le> 2 ^ 53"
    and "r64 x = (if (2::real) powi 1024 \<le> real_of_int n * 2 powi (E - 52) then PInf
                  else Fin (real_of_int n * 2 powi (E - 52)))"
proof -
  define E where "E = max \<lfloor>log 2 x\<rfloor> (- 1022)"
  define n where "n = rhe (x / 2 powi (E - 52))"
  have qpos: "(0::real) < 2 powi (E - 52)" by simp
  have "real_of_int 0 \<le> x / 2 powi (E - 52)" using assms by simp
  then have n0: "0 \<le> n" unfolding n_def by (rule rhe_ge)
  have "x < 2 powi (\<lfloor>log 2 x\<rfloor> + 1)" using binade [OF assms] by simp
  also have "\<dots> \<le> 2 powi (E + 1)" by (simp only: pow2_le_iff) (simp add: E_def)
  also have "\<dots> = 2 powi 53 * 2 powi (E - 52)"
    using pow2_split [of 53 "E - 52"] by (simp add: add.commute)
  finally have "x / 2 powi (E - 52) < 2 powi 53"
    using qpos by (simp add: divide_less_eq)
  then have "x / 2 powi (E - 52) \<le> real_of_int (2 ^ 53)" by simp
  then have n1: "n \<le> 2 ^ 53" unfolding n_def by (rule rhe_below)
  have "r64 x = (if (2::real) powi 1024 \<le> real_of_int n * 2 powi (E - 52) then PInf
                  else Fin (real_of_int n * 2 powi (E - 52)))"
    using assms by (simp add: r64_def Let_def quantum_def E_def n_def signed_inf_def)
  with n0 n1 show ?thesis using that [of E n] by (simp add: E_def n_def)
qed

lemma r64_sign:
  assumes "r64 z = Fin v" and "0 < v"
  shows "0 < z"
proof (rule ccontr)
  assume "\<not> 0 < z"
  then consider "z = 0" | "z < 0" by linarith
  then show False
  proof cases
    case 1
    with assms show False by (simp add: r64_0)
  next
    case 2
    then have p: "0 < - z" by simp
    obtain n E where n: "0 \<le> n"
      and r: "r64 (- z) = (if (2::real) powi 1024 \<le> real_of_int n * 2 powi (E - 52) then PInf
                  else Fin (real_of_int n * 2 powi (E - 52)))"
      using r64_pos_shape [OF p] by metis
    have "r64 (- z) = Fin (- v)" using assms(1) by (simp add: r64_minus)
    with r have "- v = real_of_int n * 2 powi (E - 52)" by (simp split: if_splits)
    moreover have "0 \<le> real_of_int n * 2 powi (E - 52)" using n by simp
    ultimately show False using assms(2) by simp
  qed
qed

lemma double_near_one_grid:
  assumes "r64 z = Fin v" and "1 / 2 \<le> v" and "v \<le> 2"
  shows "\<exists>j::int. v = of_int j / 2 ^ 53"
proof -
  have vpos: "0 < v" using assms(2) by simp
  have zpos: "0 < z" using assms(1) vpos by (rule r64_sign)
  obtain n E where n1: "n \<le> 2 ^ 53"
    and r: "r64 z = (if (2::real) powi 1024 \<le> real_of_int n * 2 powi (E - 52) then PInf
                  else Fin (real_of_int n * 2 powi (E - 52)))"
    using r64_pos_shape [OF zpos] by metis
  from r assms(1) have v: "v = real_of_int n * 2 powi (E - 52)" by (simp split: if_splits)
  have qpos: "(0::real) < 2 powi (E - 52)" by simp
  have "real_of_int n \<le> real_of_int (2 ^ 53)" using n1 by (simp only: of_int_le_iff)
  then have nr: "real_of_int n \<le> 2 ^ 53" by simp
  then have "v \<le> 2 ^ 53 * 2 powi (E - 52)" unfolding v using qpos by (simp add: mult_right_mono)
  also have "2 ^ 53 * 2 powi (E - 52) = (2::real) powi (E + 1)"
    using pow2_split [of 53 "E - 52"] by (simp add: add.commute)
  finally have "(2::real) powi (- 1) \<le> 2 powi (E + 1)" using assms(2) by simp
  then have "- 1 \<le> E + 1" by (simp only: pow2_le_iff)
  then consider "E = - 2" | "- 1 \<le> E" by linarith
  then show ?thesis
  proof cases
    case 1
    have "(2::real) powi (- 2 - 52) = 1 / 2 ^ 54" by simp
    with 1 v have v54: "v = real_of_int n / 2 ^ 54" by simp
    with assms(2) have "2 ^ 53 \<le> real_of_int n" by (simp add: field_simps)
    with nr have "real_of_int n = 2 ^ 53" by simp
    with v54 have "v = real_of_int (2 ^ 52) / 2 ^ 53" by simp
    then show ?thesis by blast
  next
    case 2
    define m where "m = nat (E + 1)"
    have "E - 52 = int m + (- 53)" using 2 by (simp add: m_def)
    then have "(2::real) powi (E - 52) = 2 powi (int m) * 2 powi (- 53)"
      by (simp only: pow2_split)
    then have "v = real_of_int (n * 2 ^ m) / 2 ^ 53" unfolding v by simp
    then show ?thesis by blast
  qed
qed

lemma r64_exact_grid:
  assumes "0 < i" and "i \<le> 2 ^ 53"
  shows "r64 (real_of_int i / 2 ^ 53) = Fin (real_of_int i / 2 ^ 53)"
proof -
  define a where "a = real_of_int i / 2 ^ 53"
  define k where "k = \<lfloor>log 2 a\<rfloor>"
  have ipos: "0 < real_of_int i" using assms(1) by simp
  have "1 \<le> i" using assms(1) by simp
  then have "real_of_int 1 \<le> real_of_int i" by (simp only: of_int_le_iff)
  then have i1: "1 \<le> real_of_int i" by simp
  have "real_of_int i \<le> real_of_int (2 ^ 53)" using assms(2) by (simp only: of_int_le_iff)
  then have i2: "real_of_int i \<le> 2 ^ 53" by simp
  have apos: "0 < a" using ipos by (simp add: a_def)
  have b: "2 powi k \<le> a" "a < 2 powi (k + 1)" using binade [OF apos] by (simp_all add: k_def)
  have alo: "2 powi (- 53) \<le> a" using i1 by (simp add: a_def field_simps)
  have ahi: "a \<le> 2 powi 0" using i2 by (simp add: a_def field_simps)
  have "(2::real) powi (- 53) < 2 powi (k + 1)" using alo b(2) by linarith
  then have "- 53 < k + 1" by (simp only: pow2_less_iff)
  then have klo: "- 53 \<le> k" by simp
  have "(2::real) powi k \<le> 2 powi 0" using ahi b(1) by linarith
  then have khi: "k \<le> 0" by (simp only: pow2_le_iff)
  have ex: "\<exists>n::int. a / 2 powi (k - 52) = real_of_int n"
  proof (cases "k = 0")
    case True
    with b(1) have "1 \<le> a" by simp
    with ahi have "a = 1" by simp
    with True have "a / 2 powi (k - 52) = real_of_int (2 ^ 52)" by simp
    then show ?thesis by blast
  next
    case False
    with khi have k1: "k \<le> - 1" by simp
    define m where "m = nat (- 1 - k)"
    have "- 53 = (k - 52) + int m" using k1 by (simp add: m_def)
    then have "(2::real) powi (- 53) = 2 powi (k - 52) * 2 powi (int m)"
      by (simp only: pow2_split)
    then have "1 / 2 ^ 53 = 2 powi (k - 52) * (2::real) ^ m" by simp
    then have "a = real_of_int i * (2 powi (k - 52) * 2 ^ m)" by (simp add: a_def)
    then have "a / 2 powi (k - 52) = real_of_int (i * 2 ^ m)" by simp
    then show ?thesis by blast
  qed
  then obtain n :: int where n: "a / 2 powi (k - 52) = real_of_int n" by blast
  have "r64 a = Fin a"
  proof (rule r64_nearest [where k = k and n = n])
    show "0 < a" by (rule apos)
    show "- 1022 \<le> k" using klo by simp
    show "k \<le> 1022" using khi by simp
    show "2 powi k \<le> a" by (rule b(1))
    show "a < 2 powi (k + 1)" by (rule b(2))
    show "\<bar>a / 2 powi (k - 52) - real_of_int n\<bar> < 1 / 2" using n by simp
    show "a = real_of_int n * 2 powi (k - 52)" using n by (simp add: field_simps)
  qed
  then show ?thesis by (simp only: a_def)
qed

lemma r64_large_pos:
  assumes "1 / 2 < y"
  shows "r64 y = PInf \<or> (\<exists>r. r64 y = Fin r \<and> 1 / 2 \<le> r)"
proof -
  have ypos: "0 < y" using assms by simp
  obtain n E where E: "E = max \<lfloor>log 2 y\<rfloor> (- 1022)"
    and n: "n = rhe (y / 2 powi (E - 52))"
    and r: "r64 y = (if (2::real) powi 1024 \<le> real_of_int n * 2 powi (E - 52) then PInf
                  else Fin (real_of_int n * 2 powi (E - 52)))"
    using r64_pos_shape [OF ypos] by metis
  define e where "e = \<lfloor>log 2 y\<rfloor>"
  have b: "2 powi e \<le> y" "y < 2 powi (e + 1)" using binade [OF ypos] by (simp_all add: e_def)
  have "(2::real) powi (- 1) < 2 powi (e + 1)" using assms b(2) by simp
  then have "- 1 < e + 1" by (simp only: pow2_less_iff)
  then have e1: "- 1 \<le> e" by simp
  then have Ee: "E = e" by (simp add: E e_def)
  have qpos: "(0::real) < 2 powi (e - 52)" by simp
  have split: "(2::real) powi e = 2 ^ 52 * 2 powi (e - 52)"
    using pow2_split [of 52 "e - 52"] by simp
  then have "real_of_int (2 ^ 52) \<le> y / 2 powi (e - 52)"
    using b(1) qpos by (simp add: le_divide_eq)
  then have "2 ^ 52 \<le> n" unfolding n Ee by (rule rhe_ge)
  then have "real_of_int (2 ^ 52) \<le> real_of_int n" by (simp only: of_int_le_iff)
  then have "2 ^ 52 * 2 powi (e - 52) \<le> real_of_int n * 2 powi (e - 52)"
    using qpos by (simp add: mult_right_mono)
  then have "2 powi e \<le> real_of_int n * 2 powi (e - 52)" by (simp only: split)
  moreover have "(2::real) powi (- 1) \<le> 2 powi e" using e1 by (simp only: pow2_le_iff)
  ultimately have "1 / 2 \<le> real_of_int n * 2 powi (e - 52)" by simp
  with r Ee show ?thesis by auto
qed

lemma r64_large:
  assumes "1 / 2 < \<bar>y\<bar>"
  shows "r64 y = PInf \<or> r64 y = NInf \<or> (\<exists>r. r64 y = Fin r \<and> 1 / 2 \<le> \<bar>r\<bar>)"
proof (cases "0 < y")
  case True
  with assms have "1 / 2 < y" by simp
  then show ?thesis using r64_large_pos [of y] by auto
next
  case False
  with assms have "1 / 2 < - y" by simp
  then have "r64 (- y) = PInf \<or> (\<exists>r. r64 (- y) = Fin r \<and> 1 / 2 \<le> r)"
    by (rule r64_large_pos)
  then show ?thesis
  proof
    assume "r64 (- y) = PInf"
    then have "fneg (r64 y) = PInf" by (simp add: r64_minus)
    then have "r64 y = NInf" by (cases "r64 y") simp_all
    then show ?thesis by simp
  next
    assume "\<exists>r. r64 (- y) = Fin r \<and> 1 / 2 \<le> r"
    then obtain r where r: "r64 (- y) = Fin r" "1 / 2 \<le> r" by blast
    then have "fneg (r64 y) = Fin r" by (simp add: r64_minus)
    then have "r64 y = Fin (- r)" by (cases "r64 y") auto
    with r(2) show ?thesis by simp
  qed
qed

lemma r64_thousandth: "r64 (1 / 1000) = Fin (1152921504606847 / 1152921504606846976)"
  by (rule r64_nearest [where k = "- 10" and n = 4611686018427388]) simp_all

lemma grid_tolerance:
  fixes m :: int
  shows "1152921504606847 / 1152921504606846976 < real_of_int m / 2 ^ 53
         \<longleftrightarrow> 1 / 1000 < real_of_int m / 2 ^ 53"
proof -
  have a: "1152921504606847 < m * 128 \<longleftrightarrow> 9007199254741 \<le> m" by linarith
  have b: "9007199254740992 < m * 1000 \<longleftrightarrow> 9007199254741 \<le> m" by linarith
  have "1152921504606847 / 1152921504606846976 < real_of_int m / 2 ^ 53
        \<longleftrightarrow> real_of_int 1152921504606847 < real_of_int (m * 128)"
    by simp
  also have "\<dots> \<longleftrightarrow> 1152921504606847 < m * 128" by (simp only: of_int_less_iff)
  also have "\<dots> \<longleftrightarrow> 9007199254740992 < m * 1000" by (simp only: a b)
  also have "\<dots> \<longleftrightarrow> real_of_int 9007199254740992 < real_of_int (m * 1000)"
    by (simp only: of_int_less_iff)
  also have "\<dots> \<longleftrightarrow> 1 / 1000 < real_of_int m / 2 ^ 53"
    by (simp add: mult.commute)
  finally show ?thesis .
qed

lemma rounded_py_sum: "rounded (py_sum ws)"
proof (cases ws rule: rev_cases)
  case Nil
  have "py_sum ws = round64 (Fin 0)" by (simp add: r64_0 py_sum_def Nil)
  then show ?thesis unfolding rounded_def by (rule exI)
next
  case (snoc xs x)
  then show ?thesis by (auto simp: rounded_def py_sum_def add64_def)
qed

lemma sub64_near_one:
  assumes "r64 z = Fin x" and "1 / 2 \<le> x" and "x \<le> 2"
  shows "sub64 (Fin x) (Fin 1) = Fin (x - 1)"
    and "\<exists>m::int. \<bar>x - 1\<bar> = real_of_int m / 2 ^ 53"
proof -
  obtain j :: int where j: "x = real_of_int j / 2 ^ 53"
    using double_near_one_grid [OF assms] by blast
  define i where "i = j - 2 ^ 53"
  have xi: "x - 1 = real_of_int i / 2 ^ 53" by (simp add: i_def j field_simps)
  have "real_of_int i \<le> 2 ^ 53" using assms(3) xi by (simp add: field_simps)
  then have "real_of_int i \<le> real_of_int (2 ^ 53)" by simp
  then have ihi: "i \<le> 2 ^ 53" by (simp only: of_int_le_iff)
  have "- (2 ^ 53) \<le> real_of_int i" using assms(2) xi by (simp add: field_simps)
  then have "real_of_int (- (2 ^ 53)) \<le> real_of_int i" by simp
  then have ilo: "- (2 ^ 53) \<le> i" by (simp only: of_int_le_iff)
  have "r64 (x - 1) = Fin (x - 1)"
  proof -
    consider "i = 0" | "0 < i" | "i < 0" by linarith
    then show ?thesis
    proof cases
      case 1
      then show ?thesis by (simp add: xi r64_0)
    next
      case 2
      then show ?thesis unfolding xi using ihi by (rule r64_exact_grid)
    next
      case 3
      then have "0 < - i" "- i \<le> 2 ^ 53" using ilo by simp_all
      then have "r64 (real_of_int (- i) / 2 ^ 53) = Fin (real_of_int (- i) / 2 ^ 53)"
        by (rule r64_exact_grid)
      then have "r64 (- (x - 1)) = Fin (- (x - 1))" by (simp add: xi)
      then have "fneg (r64 (x - 1)) = Fin (- (x - 1))" by (simp only: r64_minus)
      then show ?thesis by (cases "r64 (x - 1)") auto
    qed
  qed
  then show "sub64 (Fin x) (Fin 1) = Fin (x - 1)" by (simp add: sub64_def fsub_def)
  have "\<bar>x - 1\<bar> = real_of_int \<bar>i\<bar> / 2 ^ 53" by (simp add: xi)
  then show "\<exists>m::int. \<bar>x - 1\<bar> = real_of_int m / 2 ^ 53" by blast
qed

lemma tolerance_test:
  assumes "rounded s"
  shows "fgt (fabs (sub64 s (Fin 1))) (r64 (1 / 1000)) \<longleftrightarrow> beyond_tolerance s"
proof (cases s)
  case (Fin x)
  with assms obtain v where v: "Fin x = round64 v" by (auto simp: rounded_def)
  then obtain z where z: "r64 z = Fin x" by (cases v) auto
  show ?thesis
  proof (cases "1 / 2 \<le> x \<and> x \<le> 2")
    case True
    then have a: "1 / 2 \<le> x" and b: "x \<le> 2" by simp_all
    have s1: "sub64 (Fin x) (Fin 1) = Fin (x - 1)" using z a b by (rule sub64_near_one(1))
    obtain m :: int where m: "\<bar>x - 1\<bar> = real_of_int m / 2 ^ 53"
      using sub64_near_one(2) [OF z a b] by blast
    show ?thesis
      unfolding Fin s1 using grid_tolerance [of m]
      by (simp add: fgt_def r64_thousandth m)
  next
    case False
    then have big: "1 / 2 < \<bar>x - 1\<bar>" by (auto simp: abs_if)
    then have bt: "beyond_tolerance (Fin x)" by simp
    have "fgt (fabs (r64 (x - 1))) (Fin (1152921504606847 / 1152921504606846976))"
      using r64_large [OF big] by (auto simp: fgt_def)
    then have "fgt (fabs (sub64 (Fin x) (Fin 1))) (r64 (1 / 1000))"
      by (simp add: sub64_def fsub_def r64_thousandth)
    with bt show ?thesis unfolding Fin by simp
  qed
next
  case PInf
  then show ?thesis by (simp add: sub64_def fsub_def fgt_def r64_thousandth)
next
  case NInf
  then show ?thesis by (simp add: sub64_def fsub_def fgt_def r64_thousandth)
next
  case NaN
  then show ?thesis by (simp add: sub64_def fsub_def fgt_def r64_thousandth)
qed

section \<open>Validation of the weights\<close>

text \<open>Roundings that the examples below meet.\<close>

lemma r64_one: "r64 (1) = Fin 1"
  by (rule r64_nearest [where k = 0 and n = 4503599627370496]) simp_all

lemma r64_half: "r64 (1 / 2) = Fin (1 / 2)"
  by (rule r64_nearest [where k = "- 1" and n = 4503599627370496]) simp_all

lemma r64_06: "r64 (3 / 5) = Fin (5404319552844595 / 9007199254740992)"
  by (rule r64_nearest [where k = "- 1" and n = 5404319552844595]) simp_all

lemma r64_half_plus_06: "r64 (9907919180215091 / 9007199254740992) = Fin (2476979795053773 / 2251799813685248)"
  by (rule r64_tie [where k = 0 and n = 4953959590107546]) simp_all

lemma r64_0999: "r64 (999 / 1000) = Fin (8998192055486251 / 9007199254740992)"
  by (rule r64_nearest [where k = "- 1" and n = 8998192055486251]) simp_all

lemma r64_0999_again: "r64 (8998192055486251 / 9007199254740992) = Fin (8998192055486251 / 9007199254740992)"
  by (rule r64_nearest [where k = "- 1" and n = 8998192055486251]) simp_all

lemma r64_0499: "r64 (499 / 1000) = Fin (4494592428115755 / 9007199254740992)"
  by (rule r64_nearest [where k = "- 2" and n = 8989184856231510]) simp_all

lemma r64_1e16: "r64 (10000000000000000) = Fin (10000000000000000)"
  by (rule r64_nearest [where k = 53 and n = 5000000000000000]) simp_all

lemma r64_1e16_plus_1: "r64 (10000000000000001) = Fin (10000000000000000)"
  by (rule r64_tie [where k = 53 and n = 5000000000000000]) simp_all

lemma r64_04: "r64 (2 / 5) = Fin (3602879701896397 / 9007199254740992)"
  by (rule r64_nearest [where k = "- 2" and n = 7205759403792794]) simp_all

lemma r64_04_again: "r64 (3602879701896397 / 9007199254740992) = Fin (3602879701896397 / 9007199254740992)"
  by (rule r64_nearest [where k = "- 2" and n = 7205759403792794]) simp_all

lemma r64_02: "r64 (1 / 5) = Fin (3602879701896397 / 18014398509481984)"
  by (rule r64_nearest [where k = "- 3" and n = 7205759403792794]) simp_all

lemma r64_04_twice: "r64 (3602879701896397 / 4503599627370496) = Fin (3602879701896397 / 4503599627370496)"
  by (rule r64_nearest [where k = "- 1" and n = 7205759403792794]) simp_all

lemma r64_04_04_02: "r64 (18014398509481985 / 18014398509481984) = Fin 1"
  by (rule r64_nearest [where k = 0 and n = 4503599627370496]) simp_all

lemma r64_1e400: "r64 (10 ^ 400) = PInf"
  by (rule r64_overflow) simp

lemmas float_reader =
  py_float_def parse_number_def parse_exponent_def digits_value_def digit_val_def
  is_digit_def strip_def is_space_def lower_char_def scale10_def

lemma validate_None_iff: "validate ts ws = None \<longleftrightarrow> \<not> weights_rejected ts ws"
  by (simp add: validate_def weights_rejected_def tolerance_test rounded_py_sum)

lemma pipeline_rejected:
  "weights_rejected ts ws \<Longrightarrow> \<exists>msg. pipeline yf ts per ws = ([ErrorMsg msg], Stopped)"
  by (cases "validate ts ws") (auto simp: pipeline_def validate_None_iff)

lemma pipeline_accepted:
  "\<not> weights_rejected ts ws \<Longrightarrow> snd (pipeline yf ts per ws) \<noteq> Stopped"
  by (auto simp: pipeline_def validate_None_iff[symmetric] split: sum.splits)

lemma pipeline_accepted_download:
  "\<not> weights_rejected ts ws \<Longrightarrow>
     \<exists>shown out. pipeline yf ts per ws = (Download ts per # shown, out) \<and> out \<noteq> Stopped"
  by (auto simp: pipeline_def validate_None_iff[symmetric] split: sum.splits)

text \<open>
  Claim C1. For ticker and weight lists of any lengths, the pipeline halts with a
  validation error exactly when the lengths differ or the sum of the weights is more
  than 0.001 away from 1: the test of line 38, made with rounded float operations
  against the float 0.001, decides the comparison of the real numbers. When the
  pipeline halts so, the error message is all it did: no request went to the
  market-data provider and no result was shown; for the whole script, the page shows
  its head (title and input widgets) and the message, and nothing else. Weights that
  are not rejected lead to the request to the provider.
\<close>

theorem weight_validation:
  "(halts_with_validation_error (pipeline yf etf_list per weights_list)
      \<longleftrightarrow> weights_rejected etf_list weights_list)
   \<and> (halts_with_validation_error (pipeline yf etf_list per weights_list)
      \<longrightarrow> (\<exists>msg. fst (pipeline yf etf_list per weights_list) = [ErrorMsg msg]))
   \<and> (parse_weights weights_input = Inr weights_list
        \<and> weights_rejected (parse_tickers etfs) weights_list
      \<longrightarrow> (\<exists>msg. run yf etfs per weights_input = (page_head @ [ErrorMsg msg], Stopped)))
   \<and> (parse_weights weights_input = Inr weights_list
        \<and> \<not> weights_rejected (parse_tickers etfs) weights_list
      \<longrightarrow> (\<exists>shown out. run yf etfs per weights_input
                          = (page_head @ Download (parse_tickers etfs) per # shown, out)
                        \<and> out \<noteq> Stopped))"
proof (intro conjI impI)
  show "halts_with_validation_error (pipeline yf etf_list per weights_list)
      \<longleftrightarrow> weights_rejected etf_list weights_list"
  proof
    assume "halts_with_validation_error (pipeline yf etf_list per weights_list)"
    then have "snd (pipeline yf etf_list per weights_list) = Stopped"
      by (simp add: halts_with_validation_error_def)
    then show "weights_rejected etf_list weights_list"
      using pipeline_accepted by blast
  next
    assume "weights_rejected etf_list weights_list"
    then obtain msg where "pipeline yf etf_list per weights_list = ([ErrorMsg msg], Stopped)"
      using pipeline_rejected by blast
    then show "halts_with_validation_error (pipeline yf etf_list per weights_list)"
      by (simp add: halts_with_validation_error_def)
  qed
next
  assume "halts_with_validation_error (pipeline yf etf_list per weights_list)"
  then have "snd (pipeline yf etf_list per weights_list) = Stopped"
    by (simp add: halts_with_validation_error_def)
  then have "weights_rejected etf_list weights_list"
    using pipeline_accepted by blast
  then obtain msg where "pipeline yf etf_list per weights_list = ([ErrorMsg msg], Stopped)"
    using pipeline_rejected by blast
  then show "\<exists>msg. fst (pipeline yf etf_list per weights_list) = [ErrorMsg msg]"
    by simp
next
  assume a: "parse_weights weights_input = Inr weights_list
        \<and> weights_rejected (parse_tickers etfs) weights_list"
  then obtain msg where
    "pipeline yf (parse_tickers etfs) per weights_list = ([ErrorMsg msg], Stopped)"
    using pipeline_rejected by blast
  with a show "\<exists>msg. run yf etfs per weights_input = (page_head @ [ErrorMsg msg], Stopped)"
    by (simp add: run_def)
next
  assume a: "parse_weights weights_input = Inr weights_list
        \<and> \<not> weights_rejected (parse_tickers etfs) weights_list"
  then obtain shown out where
    "pipeline yf (parse_tickers etfs) per weights_list
       = (Download (parse_tickers etfs) per # shown, out)" "out \<noteq> Stopped"
    using pipeline_accepted_download by blast
  with a show "\<exists>shown out. run yf etfs per weights_input
                          = (page_head @ Download (parse_tickers etfs) per # shown, out)
                        \<and> out \<noteq> Stopped"
    by (simp add: run_def)
qed

text \<open>
  What the script reads from some inputs, and whether it rejects them. The weights
  0.5 and 0.6 of the specification's scenario are rejected. The float 0.999 is a little
  below the number 0.999, so it is rejected although the number is not further than
  0.001 from 1; 0.5 and 0.499 add up to the same float. The float sum of 1e16, 1 and
  -1e16 is 0, the 1 being lost in the rounding. 1e400 is read as infinity, and the sum
  of the two infinities is NaN, which the test lets pass; so do the default weights,
  whose rounded sum is exactly 1.
\<close>

lemma tickers_AB: "parse_tickers ''A, B'' = [''A'', ''B'']"
  and tickers_A: "parse_tickers ''A'' = [''A'']"
  and tickers_default: "parse_tickers ''XLK, SPY, VTI'' = [''XLK'', ''SPY'', ''VTI'']"
  by (simp_all add: parse_tickers_def upper_def upper_char_def strip_def is_space_def)

lemma weights_05_06:
  "parse_weights ''0.5, 0.6'' = Inr [Fin (1 / 2), Fin (5404319552844595 / 9007199254740992)]"
  by (simp add: parse_weights_def float_reader r64_half r64_06)

lemma rejected_05_06: "weights_rejected [''A'', ''B''] [Fin (1 / 2), Fin (5404319552844595 / 9007199254740992)]"
  by (simp add: weights_rejected_def py_sum_def add64_def r64_half r64_half_plus_06)

lemma weights_0999: "parse_weights ''0.999'' = Inr [Fin (8998192055486251 / 9007199254740992)]"
  by (simp add: parse_weights_def float_reader r64_0999)

lemma rejected_0999: "weights_rejected [''A''] [Fin (8998192055486251 / 9007199254740992)]"
  by (simp add: weights_rejected_def py_sum_def add64_def r64_0999_again)

lemma weights_05_0499: "parse_weights ''0.5, 0.499'' = Inr [Fin (1 / 2), Fin (4494592428115755 / 9007199254740992)]"
  by (simp add: parse_weights_def float_reader r64_half r64_0499)

lemma rejected_05_0499: "weights_rejected [''A'', ''B''] [Fin (1 / 2), Fin (4494592428115755 / 9007199254740992)]"
  by (simp add: weights_rejected_def py_sum_def add64_def r64_half r64_0999_again)

lemma weights_1e16:
  "parse_weights ''1e16, 1, -1e16''
     = Inr [Fin 10000000000000000, Fin 1, Fin (- 10000000000000000)]"
  by (simp add: parse_weights_def float_reader r64_1e16 r64_one r64_minus)

lemma rejected_1e16:
  "weights_rejected [''XLK'', ''SPY'', ''VTI'']
     [Fin 10000000000000000, Fin 1, Fin (- 10000000000000000)]"
  by (simp add: weights_rejected_def py_sum_def add64_def r64_1e16 r64_1e16_plus_1 r64_0)

lemma weights_1e400: "parse_weights ''1e400, -1e400'' = Inr [PInf, NInf]"
  using r64_1e400 by (simp add: parse_weights_def float_reader r64_minus)

lemma accepted_1e400: "\<not> weights_rejected [''A'', ''B''] [PInf, NInf]"
  by (simp add: weights_rejected_def py_sum_def add64_def)

lemma weights_default:
  "parse_weights ''0.4, 0.4, 0.2'' = Inr [Fin (3602879701896397 / 9007199254740992), Fin (3602879701896397 / 9007199254740992), Fin (3602879701896397 / 18014398509481984)]"
  by (simp add: parse_weights_def float_reader r64_04 r64_02)

lemma accepted_default:
  "\<not> weights_rejected [''XLK'', ''SPY'', ''VTI''] [Fin (3602879701896397 / 9007199254740992), Fin (3602879701896397 / 9007199254740992), Fin (3602879701896397 / 18014398509481984)]"
  by (simp add: weights_rejected_def py_sum_def add64_def r64_04_again r64_04_twice r64_04_04_02)

theorem weight_validation_witness:
  "(\<exists>msg. run (\<lambda>ts p. Inl FetchError) ''A, B'' P1y ''0.5, 0.6'' = (page_head @ [ErrorMsg msg], Stopped))
   \<and> (\<exists>msg. run (\<lambda>ts p. Inl FetchError) ''A'' P1y ''0.999'' = (page_head @ [ErrorMsg msg], Stopped))
   \<and> (\<exists>msg. run (\<lambda>ts p. Inl FetchError) ''A, B'' P1y ''0.5, 0.499'' = (page_head @ [ErrorMsg msg], Stopped))
   \<and> (\<exists>msg. run (\<lambda>ts p. Inl FetchError) ''XLK, SPY, VTI'' P1y ''1e16, 1, -1e16''
               = (page_head @ [ErrorMsg msg], Stopped))
   \<and> (\<exists>shown out. run (\<lambda>ts p. Inl FetchError) ''A, B'' P1y ''1e400, -1e400''
                     = (page_head @ Download [''A'', ''B''] P1y # shown, out)
                   \<and> out \<noteq> Stopped)
   \<and> (\<exists>shown out. run (\<lambda>ts p. Inl FetchError) ''XLK, SPY, VTI'' P1y ''0.4, 0.4, 0.2''
                     = (page_head @ Download [''XLK'', ''SPY'', ''VTI''] P1y # shown, out)
                   \<and> out \<noteq> Stopped)
   \<and> halts_with_validation_error (pipeline (\<lambda>ts p. Inl FetchError) [''A'', ''B''] P1y [Fin (1 / 2), Fin (5404319552844595 / 9007199254740992)])
   \<and> (\<exists>msg. fst (pipeline (\<lambda>ts p. Inl FetchError) [''A'', ''B''] P1y [Fin (1 / 2), Fin (5404319552844595 / 9007199254740992)]) = [ErrorMsg msg])
   \<and> halts_with_validation_error (pipeline (\<lambda>ts p. Inl FetchError) [''A''] P1y [Fin (3602879701896397 / 9007199254740992), Fin (3602879701896397 / 9007199254740992), Fin (3602879701896397 / 18014398509481984)])
   \<and> \<not> halts_with_validation_error
         (pipeline (\<lambda>ts p. Inl FetchError) [''XLK'', ''SPY'', ''VTI''] P1y [Fin (3602879701896397 / 9007199254740992), Fin (3602879701896397 / 9007199254740992), Fin (3602879701896397 / 18014398509481984)])"
proof -
  note w = weight_validation
  have "weights_rejected [''A''] [Fin (3602879701896397 / 9007199254740992), Fin (3602879701896397 / 9007199254740992), Fin (3602879701896397 / 18014398509481984)]"
    by (simp add: weights_rejected_def)
  then show ?thesis
    using
      w [where yf = "\<lambda>ts p. Inl FetchError" and per = P1y and etf_list = "[''A'', ''B'']"
           and weights_list = "[Fin (1 / 2), Fin (5404319552844595 / 9007199254740992)]"
           and weights_input = "''0.5, 0.6''" and etfs = "''A, B''"]
      w [where yf = "\<lambda>ts p. Inl FetchError" and per = P1y and etf_list = "[''A'']"
           and weights_list = "[Fin (8998192055486251 / 9007199254740992)]"
           and weights_input = "''0.999''" and etfs = "''A''"]
      w [where yf = "\<lambda>ts p. Inl FetchError" and per = P1y and etf_list = "[''A'', ''B'']"
           and weights_list = "[Fin (1 / 2), Fin (4494592428115755 / 9007199254740992)]"
           and weights_input = "''0.5, 0.499''" and etfs = "''A, B''"]
      w [where yf = "\<lambda>ts p. Inl FetchError" and per = P1y and etf_list = "[''XLK'', ''SPY'', ''VTI'']"
           and weights_list = "[Fin 10000000000000000, Fin 1, Fin (- 10000000000000000)]"
           and weights_input = "''1e16, 1, -1e16''" and etfs = "''XLK, SPY, VTI''"]
      w [where yf = "\<lambda>ts p. Inl FetchError" and per = P1y and etf_list = "[''A'', ''B'']"
           and weights_list = "[PInf, NInf]"
           and weights_input = "''1e400, -1e400''" and etfs = "''A, B''"]
      w [where yf = "\<lambda>ts p. Inl FetchError" and per = P1y and etf_list = "[''XLK'', ''SPY'', ''VTI'']"
           and weights_list = "[Fin (3602879701896397 / 9007199254740992), Fin (3602879701896397 / 9007199254740992), Fin (3602879701896397 / 18014398509481984)]"
           and weights_input = "''0.4, 0.4, 0.2''" and etfs = "''XLK, SPY, VTI''"]
      w [where yf = "\<lambda>ts p. Inl FetchError" and per = P1y and etf_list = "[''A'']"
           and weights_list = "[Fin (3602879701896397 / 9007199254740992), Fin (3602879701896397 / 9007199254740992), Fin (3602879701896397 / 18014398509481984)]"
           and weights_input = "''0.4, 0.4, 0.2''" and etfs = "''A''"]
    by (simp only: tickers_AB tickers_A tickers_default weights_05_06 rejected_05_06
          weights_0999 rejected_0999 weights_05_0499 rejected_05_0499 weights_1e16
          rejected_1e16 weights_1e400 accepted_1e400 weights_default accepted_default
          simp_thms)
qed

section \<open>Weights that are not numbers\<close>

lemma floats_of_error:
  "\<exists>w \<in> set ws. py_float (strip w) = None \<Longrightarrow> floats_of ws = Inl ValueError"
proof (induction ws)
  case Nil
  then show ?case by simp
next
  case (Cons w ws)
  show ?case
  proof (cases "py_float (strip w)")
    case None
    then show ?thesis by simp
  next
    case (Some x)
    with Cons.prems have "\<exists>w \<in> set ws. py_float (strip w) = None" by auto
    then have "floats_of ws = Inl ValueError" by (rule Cons.IH)
    with Some show ?thesis by simp
  qed
qed

lemma page_head_plain:
  "e \<in> set page_head \<Longrightarrow> \<not> is_error_msg e \<and> \<not> is_download e \<and> \<not> is_result e"
  by (auto simp: page_head_def)

text \<open>
  Claim C10. When a field of the weight input is not a floating-point number, the
  conversion of line 31 raises ValueError, which nothing catches. The run ends there,
  before the two validation checks: the page shows its head only, with no validation
  message, no request to the provider and no result, whatever the tickers are.
\<close>

theorem bad_weight_raises:
  assumes "\<exists>w \<in> set (split_on CHR '','' weights_input). py_float (strip w) = None"
  shows "run yf etfs per weights_input = (page_head, Raised ValueError)
         \<and> \<not> halts_with_validation_error (run yf etfs per weights_input)
         \<and> (\<forall>e \<in> set (fst (run yf etfs per weights_input)).
               \<not> is_error_msg e \<and> \<not> is_download e \<and> \<not> is_result e)"
proof -
  from assms have "parse_weights weights_input = Inl ValueError"
    unfolding parse_weights_def by (rule floats_of_error)
  then have r: "run yf etfs per weights_input = (page_head, Raised ValueError)"
    by (simp add: run_def)
  then show ?thesis
    using page_head_plain by (simp add: halts_with_validation_error_def)
qed

theorem bad_weight_raises_witness:
  "(\<exists>w \<in> set (split_on CHR '','' ''0.5, abc''). py_float (strip w) = None)
   \<and> run (\<lambda>ts p. Inr []) ''A, B, C'' P6mo ''0.5, abc'' = (page_head, Raised ValueError)"
  using bad_weight_raises [of "''0.5, abc''" "\<lambda>ts p. Inr []" "''A, B, C''" P6mo]
  by (simp add: float_reader)

section \<open>The ticker list\<close>

lemma split_on_not_Nil: "split_on sep s \<noteq> []"
  by (induction s) (auto split: list.splits)

lemma length_split_on: "length (split_on sep s) = Suc (count_list s sep)"
  by (induction s) (auto split: list.splits)

lemma last_dropWhile_keep: "dropWhile P xs \<noteq> [] \<Longrightarrow> last (dropWhile P xs) = last xs"
  by (induction xs) (auto split: if_splits)

lemma trimmed_strip: "trimmed (strip e)"
proof -
  define a where "a = dropWhile is_space e"
  define b where "b = dropWhile is_space (rev a)"
  have s: "strip e = rev b" by (simp add: strip_def a_def b_def)
  show ?thesis
  proof (cases "b = []")
    case True
    with s show ?thesis by (simp add: trimmed_def)
  next
    case False
    then have hb: "\<not> is_space (hd b)" unfolding b_def by (rule hd_dropWhile)
    from False have lb: "last b = last (rev a)" unfolding b_def by (rule last_dropWhile_keep)
    from False have "rev a \<noteq> []" unfolding b_def by auto
    then have an: "a \<noteq> []" by simp
    then have "\<not> is_space (hd a)" unfolding a_def by (rule hd_dropWhile)
    with an lb have "\<not> is_space (last b)" by (simp add: last_rev)
    with hb False s show ?thesis by (simp add: trimmed_def hd_rev last_rev)
  qed
qed

lemma is_space_upper_char: "is_space (upper_char c) = is_space c"
  by (simp add: upper_char_def is_space_def)

lemma not_lower_upper_char: "\<not> is_lower (upper_char c)"
  by (simp add: upper_char_def is_lower_def)

lemma trimmed_upper: "trimmed e \<Longrightarrow> trimmed (upper e)"
  by (auto simp: trimmed_def upper_def hd_map last_map is_space_upper_char)

lemma uppercased_upper: "uppercased (upper e)"
  by (simp add: uppercased_def upper_def not_lower_upper_char)

text \<open>
  Claim C9, as stated: the parsed tickers are a non-empty set of trimmed, upper-cased
  symbols, so without duplicates. The code builds a list with one entry for each
  comma-separated field and removes nothing: the input \<open>SPY, spy\<close> gives the symbol
  SPY twice, and the empty input gives one entry that is the empty string.
\<close>

theorem tickers_counterexample:
  "parse_tickers ''SPY, spy'' = [''SPY'', ''SPY'']
   \<and> \<not> distinct (parse_tickers ''SPY, spy'')
   \<and> parse_tickers '''' = ['''']"
  by (simp add: parse_tickers_def upper_def upper_char_def strip_def is_space_def)

lemma join_commas_Cons: "ws \<noteq> [] \<Longrightarrow> join_commas ((c # w) # ws) = c # join_commas (w # ws)"
  by (cases ws) simp_all

lemma join_commas_split_on: "join_commas (split_on CHR '','' s) = s"
proof (induction s)
  case Nil
  then show ?case by simp
next
  case (Cons c s)
  obtain w ws where sp: "split_on CHR '','' s = w # ws"
    using split_on_not_Nil [of "CHR '',''" s] by (cases "split_on CHR '','' s") auto
  show ?case
  proof (cases "c = CHR '',''")
    case True
    with sp Cons.IH show ?thesis by simp
  next
    case False
    have "join_commas ((c # w) # ws) = c # join_commas (w # ws)"
      by (cases ws) simp_all
    with False sp Cons.IH show ?thesis by simp
  qed
qed

lemma split_on_no_sep: "f \<in> set (split_on sep s) \<Longrightarrow> sep \<notin> set f"
proof (induction s arbitrary: f)
  case Nil
  then show ?case by simp
next
  case (Cons c s)
  obtain w ws where sp: "split_on sep s = w # ws"
    using split_on_not_Nil [of sep s] by (cases "split_on sep s") auto
  have w: "sep \<notin> set w" using Cons.IH [of w] sp by simp
  show ?case
  proof (cases "c = sep")
    case True
    with Cons.prems have "f = [] \<or> f \<in> set (split_on sep s)" by simp
    then show ?thesis using Cons.IH by auto
  next
    case False
    with Cons.prems sp have "f = c # w \<or> f \<in> set ws" by simp
    then show ?thesis
    proof
      assume "f = c # w"
      with False w show ?thesis by auto
    next
      assume "f \<in> set ws"
      then have "f \<in> set (split_on sep s)" using sp by simp
      then show ?thesis by (rule Cons.IH)
    qed
  qed
qed

lemma fields_of_split_on: "fields_of s (split_on CHR '','' s)"
  using split_on_no_sep [of _ "CHR '',''" s]
  by (auto simp: fields_of_def split_on_not_Nil join_commas_split_on)

lemma strip_decomposition:
  "\<exists>pre post. f = pre @ strip f @ post
     \<and> (\<forall>c \<in> set pre. is_space c) \<and> (\<forall>c \<in> set post. is_space c)"
proof -
  define pre where "pre = takeWhile is_space f"
  define rest where "rest = dropWhile is_space f"
  define post where "post = rev (takeWhile is_space (rev rest))"
  have f: "f = pre @ rest" by (simp add: pre_def rest_def)
  have "rev (takeWhile is_space (rev rest) @ dropWhile is_space (rev rest)) = rev (rev rest)"
    by (simp only: takeWhile_dropWhile_id)
  then have "rev (dropWhile is_space (rev rest)) @ rev (takeWhile is_space (rev rest)) = rest"
    by (simp only: rev_append rev_rev_ident)
  then have "rest = strip f @ post"
    by (simp only: strip_def post_def rest_def)
  with f have "f = pre @ strip f @ post" by simp
  moreover have "\<forall>c \<in> set pre. is_space c"
    unfolding pre_def by (auto dest: set_takeWhileD)
  moreover have "\<forall>c \<in> set post. is_space c"
    unfolding post_def by (auto dest: set_takeWhileD)
  ultimately show ?thesis by blast
qed

lemma lower_upper_char: "lower_char (upper_char c) = lower_char c"
  by (simp add: upper_char_def lower_char_def)

lemma is_ticker_of_upper_strip: "is_ticker_of (upper (strip f)) f"
proof -
  obtain pre post where "f = pre @ strip f @ post"
    "\<forall>c \<in> set pre. is_space c" "\<forall>c \<in> set post. is_space c"
    using strip_decomposition by blast
  moreover have "map lower_char (upper (strip f)) = map lower_char (strip f)"
    by (simp add: upper_def lower_upper_char)
  ultimately show ?thesis
    unfolding is_ticker_of_def using trimmed_strip uppercased_upper by blast
qed

text \<open>
  Claim C9, amended: for every ticker input the parsed tickers are a non-empty list
  with one entry for each comma-separated field, in the order of the fields and with
  duplicates kept: the entry of a field is its trimmed core in upper case (it may be
  the empty string).
\<close>

theorem tickers_parsed:
  "parse_tickers etfs \<noteq> []
   \<and> length (parse_tickers etfs) = Suc (count_list etfs CHR '','')
   \<and> (\<forall>e \<in> set (parse_tickers etfs). trimmed e \<and> uppercased e)
   \<and> (\<exists>fields. fields_of etfs fields \<and> list_all2 is_ticker_of (parse_tickers etfs) fields)"
proof -
  have "list_all2 is_ticker_of (parse_tickers etfs) (split_on CHR '','' etfs)"
    by (simp add: parse_tickers_def list_all2_map1 list_all2_same is_ticker_of_upper_strip)
  then have "\<exists>fields. fields_of etfs fields \<and> list_all2 is_ticker_of (parse_tickers etfs) fields"
    using fields_of_split_on by blast
  then show ?thesis
    by (auto simp: parse_tickers_def split_on_not_Nil length_split_on
          trimmed_upper trimmed_strip uppercased_upper)
qed

theorem tickers_parsed_witness:
  "parse_tickers ''xlk, Spy ,VTI'' = [''XLK'', ''SPY'', ''VTI'']
   \<and> trimmed ''XLK'' \<and> uppercased ''SPY'' \<and> length (parse_tickers ''xlk, Spy ,VTI'') = 3
   \<and> (\<exists>fields. fields_of ''xlk, Spy ,VTI'' fields
          \<and> list_all2 is_ticker_of [''XLK'', ''SPY'', ''VTI''] fields)"
proof -
  have p: "parse_tickers ''xlk, Spy ,VTI'' = [''XLK'', ''SPY'', ''VTI'']"
    by (simp add: parse_tickers_def upper_def upper_char_def strip_def is_space_def)
  from tickers_parsed [of "''xlk, Spy ,VTI''"]
  have "(\<forall>e \<in> set [''XLK'', ''SPY'', ''VTI'']. trimmed e \<and> uppercased e)
        \<and> (\<exists>fields. fields_of ''xlk, Spy ,VTI'' fields
              \<and> list_all2 is_ticker_of [''XLK'', ''SPY'', ''VTI''] fields)"
    by (simp only: p) simp
  with p show ?thesis by simp
qed

section \<open>The weighted sum of the returns\<close>

lemma fadd_NaN_right: "fadd a NaN = NaN"
  by (cases a) simp_all

lemma fmul_NaN_right: "fmul a NaN = NaN"
  by (cases a) simp_all

lemma foldl_fadd_NaN: "foldl fadd NaN xs = NaN"
  by (induction xs) simp_all

lemma foldl_fadd_has_NaN: "NaN \<in> set xs \<Longrightarrow> foldl fadd a xs = NaN"
proof (induction xs arbitrary: a)
  case Nil
  then show ?case by simp
next
  case (Cons x xs)
  show ?case
  proof (cases "x = NaN")
    case True
    then show ?thesis by (simp add: fadd_NaN_right foldl_fadd_NaN)
  next
    case False
    with Cons.prems have "NaN \<in> set xs" by simp
    then show ?thesis using Cons.IH by simp
  qed
qed

lemma map2_fmul_has_NaN:
  "length row = length ws \<Longrightarrow> NaN \<in> set row \<Longrightarrow> NaN \<in> set (map2 fmul row ws)"
proof (induction row ws rule: list_induct2)
  case Nil
  then show ?case by simp
next
  case (Cons x xs w ws)
  then show ?case by auto
qed

lemma weighted_sum_NaN:
  "length row = length ws \<Longrightarrow> NaN \<in> set row \<Longrightarrow> weighted_sum row ws = NaN"
  unfolding weighted_sum_def by (rule foldl_fadd_has_NaN) (rule map2_fmul_has_NaN)

lemma dot_nth:
  "length cols = length ws \<Longrightarrow> t < nrows cols \<Longrightarrow>
     dot cols ws = Inr (map (\<lambda>t. weighted_sum (row_at cols t) ws) [0..<nrows cols])
     \<and> map (\<lambda>t. weighted_sum (row_at cols t) ws) [0..<nrows cols] ! t
         = weighted_sum (row_at cols t) ws"
  by (simp add: dot_def)

text \<open>
  Claim C5. On a date where the daily return of at least one ticker is missing, the
  portfolio daily return is missing: the weighted sum takes NaN as an operand, so no
  partial sum over the other tickers is formed.
\<close>

theorem missing_return_propagates:
  assumes "length dr = length weights_list"
    and "t < nrows dr"
    and "\<exists>c \<in> set dr. c ! t = NaN"
  shows "\<exists>pdr. portfolio_daily_returns dr weights_list = Inr pdr
           \<and> length pdr = nrows dr \<and> pdr ! t = NaN"
proof -
  from assms(3) obtain c where "c \<in> set dr" and "c ! t = NaN" by blast
  then have "NaN \<in> set (row_at dr t)"
    by (force simp: row_at_def)
  moreover have "length (row_at dr t) = length weights_list"
    using assms(1) by (simp add: row_at_def)
  ultimately have "weighted_sum (row_at dr t) weights_list = NaN"
    by (simp add: weighted_sum_NaN)
  with dot_nth [OF assms(1) assms(2)] show ?thesis
    by (simp add: portfolio_daily_returns_def)
qed

theorem missing_return_propagates_witness:
  "length [[NaN, Fin (1 / 100)], [NaN, NaN]] = length [Fin (1 / 2), Fin (1 / 2)]
   \<and> (1::nat) < nrows [[NaN, Fin (1 / 100)], [NaN, NaN]]
   \<and> (\<exists>pdr. portfolio_daily_returns [[NaN, Fin (1 / 100)], [NaN, NaN]] [Fin (1 / 2), Fin (1 / 2)]
               = Inr pdr \<and> length pdr = nrows [[NaN, Fin (1 / 100)], [NaN, NaN]] \<and> pdr ! 1 = NaN)"
  using missing_return_propagates
    [of "[[NaN, Fin (1 / 100)], [NaN, NaN]]" "[Fin (1 / 2), Fin (1 / 2)]" 1]
  by (simp add: nrows_def)



















text \<open>
  Claim C7. Tickers A and B with weights 0.5 and 0.5, daily returns 0.01, -0.02 for A
  and 0.03, 0.01 for B: the portfolio daily returns are 0.02 and -0.005, the portfolio
  cumulative returns 0.02 and 0.0149, which is within 0.0001 of the stated 0.01490.
\<close>

theorem two_ticker_scenario:
  "portfolio_daily_returns
      [[Fin (1 / 100), Fin (- 2 / 100)], [Fin (3 / 100), Fin (1 / 100)]]
      [Fin (5 / 10), Fin (5 / 10)]
    = Inr [Fin (2 / 100), Fin (- 5 / 1000)]
   \<and> portfolio_cumulative_returns [Fin (2 / 100), Fin (- 5 / 1000)]
    = [Fin (2 / 100), Fin (149 / 10000)]
   \<and> all_close (1 / 10000)
        (portfolio_cumulative_returns [Fin (2 / 100), Fin (- 5 / 1000)])
        [Fin (2 / 100), Fin (1490 / 100000)]"
  by (simp add: portfolio_daily_returns_def dot_def nrows_def row_at_def weighted_sum_def
        portfolio_cumulative_returns_def series_add1_def series_sub1_def cumprod_def fsub_def
        all_close_def)

section \<open>Volatility and Sharpe ratio\<close>

lemma fdiv_zero_not_finite: "\<not> is_finite (fdiv a (Fin 0))"
  by (cases a) (simp_all add: signed_inf_def)

lemma dropna_map_Fin: "dropna (map Fin xs) = map Fin xs"
  by (induction xs) (simp_all add: dropna_def)




lemma round64_not_finite: "\<not> is_finite v \<Longrightarrow> round64 v = v"
  by (cases v) simp_all

lemma div64_zero_not_finite: "\<not> is_finite (div64 a (Fin 0))"
  using fdiv_zero_not_finite [of a] by (simp add: div64_def round64_not_finite)

lemma present_shows_sharpe:
  "portfolio_daily_returns (daily_returns tb) ws = Inr pdr \<Longrightarrow>
     \<exists>shown. present ts ws tb = Inr shown \<and> Metric ''Sharpe Ratio'' (sharpe_ratio pdr) \<in> set shown"
  by (simp add: present_def Let_def)

lemma pipeline_completes:
  assumes "\<not> weights_rejected ts ws"
    and "yf ts per = Inr tb"
    and "portfolio_daily_returns (daily_returns tb) ws = Inr pdr"
  shows "snd (pipeline yf ts per ws) = Completed
         \<and> Metric ''Sharpe Ratio'' (sharpe_ratio pdr) \<in> set (fst (pipeline yf ts per ws))"
proof -
  from assms(1) have v: "validate ts ws = None" by (simp add: validate_None_iff)
  from assms(3) obtain shown where
    "present ts ws tb = Inr shown" "Metric ''Sharpe Ratio'' (sharpe_ratio pdr) \<in> set shown"
    using present_shows_sharpe by blast
  with v assms(2) show ?thesis by (simp add: pipeline_def)
qed

lemma r64_sqrt_nearest:
  assumes "- 1022 \<le> k" and "k \<le> 1022"
    and "(2 powi k)\<^sup>2 \<le> v" and "v < (2 powi (k + 1))\<^sup>2"
    and "1 \<le> n"
    and "((of_int n - 1 / 2) * 2 powi (k - 52))\<^sup>2 < v"
    and "v < ((of_int n + 1 / 2) * 2 powi (k - 52))\<^sup>2"
    and "w = of_int n * 2 powi (k - 52)"
  shows "r64 (sqrt v) = Fin w"
proof -
  have qpos: "(0::real) < 2 powi (k - 52)" by simp
  have "real_of_int 1 \<le> real_of_int n" using assms(5) by (simp only: of_int_le_iff)
  then have n1: "1 \<le> real_of_int n" by simp
  have a: "2 powi k \<le> sqrt v" using assms(3) by (rule real_le_rsqrt)
  have b: "sqrt v < 2 powi (k + 1)" using assms(4) by (intro real_less_lsqrt) simp_all
  have c: "(real_of_int n - 1 / 2) * 2 powi (k - 52) < sqrt v"
    using assms(6) by (rule real_less_rsqrt)
  have "0 \<le> (real_of_int n + 1 / 2) * 2 powi (k - 52)" using n1 by simp
  then have d: "sqrt v < (real_of_int n + 1 / 2) * 2 powi (k - 52)"
    using assms(7) by (intro real_less_lsqrt)
  have "(0::real) < 2 powi k" by simp
  with a have pos: "0 < sqrt v" by linarith
  from c have "real_of_int n - 1 / 2 < sqrt v / 2 powi (k - 52)"
    using qpos by (simp add: pos_less_divide_eq)
  moreover from d have "sqrt v / 2 powi (k - 52) < real_of_int n + 1 / 2"
    using qpos by (simp add: pos_divide_less_eq)
  ultimately have near: "\<bar>sqrt v / 2 powi (k - 52) - real_of_int n\<bar> < 1 / 2" by linarith
  show ?thesis
    using pos assms(1,2) a b near assms(8) by (rule r64_nearest)
qed

text \<open>
  Claim C6, as stated, names a constant series as an example of zero volatility. The
  series 0.1, 0.1, 0.1 is constant, but the sum of its entries is rounded, the mean
  comes out one step above 0.1, and the standard deviation is the float
  1.6996749443881478e-17, not 0. The annualized volatility is not zero and the Sharpe
  ratio is the finite number 9.339731646219026e+16.
\<close>

lemma r64_01: "r64 (1 / 10) = Fin (3602879701896397 / 36028797018963968)"
  by (rule r64_nearest [where k = "- 4" and n = 7205759403792794]) simp_all

lemma r64_01_again: "r64 (3602879701896397 / 36028797018963968) = Fin (3602879701896397 / 36028797018963968)"
  by (rule r64_nearest [where k = "- 4" and n = 7205759403792794]) simp_all

lemma r64_01_twice: "r64 (3602879701896397 / 18014398509481984) = Fin (3602879701896397 / 18014398509481984)"
  by (rule r64_nearest [where k = "- 3" and n = 7205759403792794]) simp_all

lemma r64_01_thrice: "r64 (10808639105689191 / 36028797018963968) = Fin (1351079888211149 / 4503599627370496)"
  by (rule r64_tie [where k = "- 2" and n = 5404319552844596]) simp_all

lemma r64_01_avg: "r64 (1351079888211149 / 13510798882111488) = Fin (7205759403792795 / 72057594037927936)"
  by (rule r64_nearest [where k = "- 4" and n = 7205759403792795]) simp_all

lemma r64_01_diff: "r64 (1 / 72057594037927936) = Fin (1 / 72057594037927936)"
  by (rule r64_nearest [where k = "- 56" and n = 4503599627370496]) simp_all

lemma r64_01_sq: "r64 (1 / 5192296858534827628530496329220096) = Fin (1 / 5192296858534827628530496329220096)"
  by (rule r64_nearest [where k = "- 112" and n = 4503599627370496]) simp_all

lemma r64_01_sq_twice: "r64 (1 / 2596148429267413814265248164610048) = Fin (1 / 2596148429267413814265248164610048)"
  by (rule r64_nearest [where k = "- 111" and n = 4503599627370496]) simp_all

lemma r64_01_sq_thrice: "r64 (3 / 5192296858534827628530496329220096) = Fin (3 / 5192296858534827628530496329220096)"
  by (rule r64_nearest [where k = "- 111" and n = 6755399441055744]) simp_all

lemma r64_01_var: "r64 (3 / 10384593717069655257060992658440192) = Fin (3 / 10384593717069655257060992658440192)"
  by (rule r64_nearest [where k = "- 112" and n = 6755399441055744]) simp_all

lemma r64_01_std: "r64 (sqrt (3 / 10384593717069655257060992658440192)) = Fin (2757880273211543 / 162259276829213363391578010288128)"
  by (rule r64_sqrt_nearest [where k = "- 56" and n = 5515760546423086]) (simp_all add: power2_eq_square)

lemma r64_sqrt_252: "r64 (sqrt 252) = Fin (8936553463969119 / 562949953421312)"
  by (rule r64_sqrt_nearest [where k = 3 and n = 8936553463969119]) (simp_all add: power2_eq_square)

lemma r64_01_vol: "r64 (24645944508780714900717906340617 / 91343852333181432387730302044767688728495783936) = Fin (5472499011456459 / 20282409603651670423947251286016)"
  by (rule r64_nearest [where k = "- 52" and n = 5472499011456459]) simp_all

lemma r64_01_ar: "r64 (453962842438946085 / 18014398509481984) = Fin (7093169413108533 / 281474976710656)"
  by (rule r64_nearest [where k = 4 and n = 7093169413108533]) simp_all

lemma r64_01_sharpe: "r64 (170372240670674074795713333559296 / 1824166337152153) = Fin (93397316462190256)"
  by (rule r64_nearest [where k = 56 and n = 5837332278886891]) simp_all

theorem constant_series_counterexample:
  "r64 (1 / 10) = Fin (3602879701896397 / 36028797018963968)
   \<and> series_std64 [Fin (3602879701896397 / 36028797018963968), Fin (3602879701896397 / 36028797018963968), Fin (3602879701896397 / 36028797018963968)] = Fin (2757880273211543 / 162259276829213363391578010288128)
   \<and> portfolio_volatility64 [Fin (3602879701896397 / 36028797018963968), Fin (3602879701896397 / 36028797018963968), Fin (3602879701896397 / 36028797018963968)] = Fin (5472499011456459 / 20282409603651670423947251286016)
   \<and> portfolio_volatility64 [Fin (3602879701896397 / 36028797018963968), Fin (3602879701896397 / 36028797018963968), Fin (3602879701896397 / 36028797018963968)] \<noteq> Fin 0
   \<and> sharpe_ratio64 [Fin (3602879701896397 / 36028797018963968), Fin (3602879701896397 / 36028797018963968), Fin (3602879701896397 / 36028797018963968)] = Fin (93397316462190256)
   \<and> is_finite (sharpe_ratio64 [Fin (3602879701896397 / 36028797018963968), Fin (3602879701896397 / 36028797018963968), Fin (3602879701896397 / 36028797018963968)])"
proof -
  have s: "series_std64 [Fin (3602879701896397 / 36028797018963968), Fin (3602879701896397 / 36028797018963968), Fin (3602879701896397 / 36028797018963968)] = Fin (2757880273211543 / 162259276829213363391578010288128)"
    using r64_01_again r64_01_twice r64_01_thrice r64_01_avg r64_01_diff r64_01_sq
      r64_01_sq_twice r64_01_sq_thrice r64_01_var r64_01_std
    by (simp add: series_std64_def dropna_def add64_def sub64_def mul64_def div64_def
          sqrt64_def fsub_def)
  have v: "portfolio_volatility64 [Fin (3602879701896397 / 36028797018963968), Fin (3602879701896397 / 36028797018963968), Fin (3602879701896397 / 36028797018963968)] = Fin (5472499011456459 / 20282409603651670423947251286016)"
    using r64_sqrt_252 r64_01_vol by (simp add: portfolio_volatility64_def s mul64_def)
  have m: "series_mean64 [Fin (3602879701896397 / 36028797018963968), Fin (3602879701896397 / 36028797018963968), Fin (3602879701896397 / 36028797018963968)] = Fin (7205759403792795 / 72057594037927936)"
    using r64_01_again r64_01_twice r64_01_thrice r64_01_avg
    by (simp add: series_mean64_def dropna_def add64_def div64_def)
  have a: "portfolio_annual_return64 [Fin (3602879701896397 / 36028797018963968), Fin (3602879701896397 / 36028797018963968), Fin (3602879701896397 / 36028797018963968)] = Fin (7093169413108533 / 281474976710656)"
    using r64_01_ar by (simp add: portfolio_annual_return64_def m mul64_def)
  have h: "sharpe_ratio64 [Fin (3602879701896397 / 36028797018963968), Fin (3602879701896397 / 36028797018963968), Fin (3602879701896397 / 36028797018963968)] = Fin (93397316462190256)"
    using r64_01_sharpe by (simp add: sharpe_ratio64_def a v div64_def)
  show ?thesis
    using r64_01 by (simp add: s v h)
qed

text \<open>
  Claim C6, amended: the Sharpe ratio is the annualized return divided by the
  annualized volatility, with no special case. Whenever the volatility is zero, as it is
  for the series 0, 0, 0 (a constant series need not have it), the Sharpe ratio is not
  finite; it is shown on its metric card like any other value and the run completes.
  For the series 0, 0, 0 the volatility is 0, the Sharpe ratio is not finite and the
  maximum drawdown is 0. All of this holds with exact and with binary64 operations.
\<close>

theorem sharpe_ratio_zero_volatility:
  "sharpe_ratio pdr = fdiv (portfolio_annual_return pdr) (portfolio_volatility pdr)
   \<and> sharpe_ratio64 pdr = div64 (portfolio_annual_return64 pdr) (portfolio_volatility64 pdr)
   \<and> (portfolio_volatility pdr = Fin 0 \<longrightarrow> \<not> is_finite (sharpe_ratio pdr))
   \<and> (portfolio_volatility64 pdr = Fin 0 \<longrightarrow> \<not> is_finite (sharpe_ratio64 pdr))
   \<and> (\<not> weights_rejected etf_list weights_list \<and> yf etf_list per = Inr adj_close
        \<and> portfolio_daily_returns (daily_returns adj_close) weights_list = Inr pdr
      \<longrightarrow> snd (pipeline yf etf_list per weights_list) = Completed
          \<and> Metric ''Sharpe Ratio'' (sharpe_ratio pdr)
              \<in> set (fst (pipeline yf etf_list per weights_list)))
   \<and> portfolio_volatility [Fin 0, Fin 0, Fin 0] = Fin 0
   \<and> \<not> is_finite (sharpe_ratio [Fin 0, Fin 0, Fin 0])
   \<and> max_drawdown [Fin 0, Fin 0, Fin 0] = Fin 0
   \<and> portfolio_volatility64 [Fin 0, Fin 0, Fin 0] = Fin 0
   \<and> \<not> is_finite (sharpe_ratio64 [Fin 0, Fin 0, Fin 0])"
proof (intro conjI impI)
  show "sharpe_ratio pdr = fdiv (portfolio_annual_return pdr) (portfolio_volatility pdr)"
    by (simp add: sharpe_ratio_def)
  show "sharpe_ratio64 pdr = div64 (portfolio_annual_return64 pdr) (portfolio_volatility64 pdr)"
    by (simp add: sharpe_ratio64_def)
  show "\<not> is_finite (sharpe_ratio pdr)" if "portfolio_volatility pdr = Fin 0"
    using that by (simp add: sharpe_ratio_def fdiv_zero_not_finite)
  show "\<not> is_finite (sharpe_ratio64 pdr)" if "portfolio_volatility64 pdr = Fin 0"
    using that by (simp add: sharpe_ratio64_def div64_zero_not_finite)
  show v: "portfolio_volatility [Fin 0, Fin 0, Fin 0] = Fin 0"
    by (simp add: portfolio_volatility_def series_std_def dropna_def fsub_def)
  show "\<not> is_finite (sharpe_ratio [Fin 0, Fin 0, Fin 0])"
    using v by (simp add: sharpe_ratio_def fdiv_zero_not_finite)
  show "max_drawdown [Fin 0, Fin 0, Fin 0] = Fin 0"
    by (simp add: max_drawdown_def drawdown_def rolling_max_def cummax_def cumprod_def
          series_add1_def series_sub1_def series_min_def dropna_def fmax_def fmin_def fsub_def)
  show v64: "portfolio_volatility64 [Fin 0, Fin 0, Fin 0] = Fin 0"
    using r64_sqrt_252
    by (simp add: portfolio_volatility64_def series_std64_def dropna_def add64_def sub64_def
          mul64_def div64_def sqrt64_def fsub_def r64_0)
  show "\<not> is_finite (sharpe_ratio64 [Fin 0, Fin 0, Fin 0])"
    using v64 by (simp add: sharpe_ratio64_def div64_zero_not_finite)
next
  assume a: "\<not> weights_rejected etf_list weights_list \<and> yf etf_list per = Inr adj_close
        \<and> portfolio_daily_returns (daily_returns adj_close) weights_list = Inr pdr"
  then show "snd (pipeline yf etf_list per weights_list) = Completed"
    using pipeline_completes by blast
  from a show "Metric ''Sharpe Ratio'' (sharpe_ratio pdr)
              \<in> set (fst (pipeline yf etf_list per weights_list))"
    using pipeline_completes by blast
qed

theorem sharpe_ratio_zero_volatility_witness:
  "portfolio_volatility [NaN, Fin 0, Fin 0, Fin 0] = Fin 0
   \<and> \<not> is_finite (sharpe_ratio [NaN, Fin 0, Fin 0, Fin 0])
   \<and> sharpe_ratio [NaN, Fin 0, Fin 0, Fin 0] = NaN
   \<and> portfolio_volatility64 [NaN, Fin 0, Fin 0, Fin 0] = Fin 0
   \<and> \<not> is_finite (sharpe_ratio64 [NaN, Fin 0, Fin 0, Fin 0])
   \<and> \<not> weights_rejected [''A''] [Fin 1]
   \<and> portfolio_daily_returns (daily_returns [[Fin 100, Fin 100, Fin 100, Fin 100]]) [Fin 1]
       = Inr [NaN, Fin 0, Fin 0, Fin 0]
   \<and> snd (pipeline (\<lambda>ts p. Inr [[Fin 100, Fin 100, Fin 100, Fin 100]]) [''A''] P1y [Fin 1])
       = Completed
   \<and> Metric ''Sharpe Ratio'' NaN
       \<in> set (fst (pipeline (\<lambda>ts p. Inr [[Fin 100, Fin 100, Fin 100, Fin 100]]) [''A''] P1y [Fin 1]))"
proof -
  have v: "portfolio_volatility [NaN, Fin 0, Fin 0, Fin 0] = Fin 0"
    by (simp add: portfolio_volatility_def series_std_def dropna_def fsub_def)
  have s: "sharpe_ratio [NaN, Fin 0, Fin 0, Fin 0] = NaN"
    by (simp add: sharpe_ratio_def v portfolio_annual_return_def series_mean_def dropna_def)
  have v64: "portfolio_volatility64 [NaN, Fin 0, Fin 0, Fin 0] = Fin 0"
    using r64_sqrt_252
    by (simp add: portfolio_volatility64_def series_std64_def dropna_def add64_def sub64_def
          mul64_def div64_def sqrt64_def fsub_def r64_0)
  have w: "\<not> weights_rejected [''A''] [Fin 1]"
    by (simp add: weights_rejected_def py_sum_def add64_def r64_one)
  have d: "portfolio_daily_returns (daily_returns [[Fin 100, Fin 100, Fin 100, Fin 100]]) [Fin 1]
       = Inr [NaN, Fin 0, Fin 0, Fin 0]"
    by (simp add: portfolio_daily_returns_def daily_returns_def pct_change_def dot_def nrows_def
          row_at_def weighted_sum_def fsub_def upt_rec)
  note t = sharpe_ratio_zero_volatility
      [where pdr = "[NaN, Fin 0, Fin 0, Fin 0]" and etf_list = "[''A'']"
         and weights_list = "[Fin 1]"
         and yf = "\<lambda>ts p. Inr [[Fin 100, Fin 100, Fin 100, Fin 100]]" and per = P1y
         and adj_close = "[[Fin 100, Fin 100, Fin 100, Fin 100]]"]
  from t v have f: "\<not> is_finite (sharpe_ratio [NaN, Fin 0, Fin 0, Fin 0])" by blast
  from t v64 have f64: "\<not> is_finite (sharpe_ratio64 [NaN, Fin 0, Fin 0, Fin 0])" by blast
  from t w d have c: "snd (pipeline (\<lambda>ts p. Inr [[Fin 100, Fin 100, Fin 100, Fin 100]])
                             [''A''] P1y [Fin 1]) = Completed
      \<and> Metric ''Sharpe Ratio'' (sharpe_ratio [NaN, Fin 0, Fin 0, Fin 0])
          \<in> set (fst (pipeline (\<lambda>ts p. Inr [[Fin 100, Fin 100, Fin 100, Fin 100]])
                         [''A''] P1y [Fin 1]))"
    by blast
  from v s v64 w d f f64 c show ?thesis by (simp only: simp_thms)
qed

section \<open>Cumulative returns\<close>

lemma growth_factors:
  "0 \<notin> set (p # qs) \<Longrightarrow>
     map (fadd (Fin 1))
       (map2 (\<lambda>cur prev. fsub (fdiv cur prev) (Fin 1)) (map Fin qs) (Fin p # map Fin qs))
     = map Fin (ratios_from p qs)"
  by (induction qs arbitrary: p) (simp_all add: fsub_def)

lemma series_add1_pct_change:
  "0 \<notin> set (p # qs) \<Longrightarrow>
     series_add1 (pct_change (map Fin (p # qs))) = NaN # map Fin (ratios_from p qs)"
  using growth_factors [of p qs] by (simp add: pct_change_def series_add1_def)

lemma cumprod_from_finite_nth:
  "k < length qs \<Longrightarrow>
     cumprod_from (Fin a) (map Fin qs) ! k = Fin (a * prod_list (take (Suc k) qs))"
proof (induction qs arbitrary: a k)
  case Nil
  then show ?case by simp
next
  case (Cons q qs)
  show ?case
  proof (cases k)
    case 0
    then show ?thesis by simp
  next
    case (Suc j)
    with Cons.prems have "j < length qs" by simp
    then have "cumprod_from (Fin (a * q)) (map Fin qs) ! j
                 = Fin (a * q * prod_list (take (Suc j) qs))"
      by (rule Cons.IH)
    with Suc show ?thesis by (simp add: mult.assoc)
  qed
qed

lemma foldl_fmul_map_Fin: "foldl fmul (Fin a) (map Fin qs) = Fin (a * prod_list qs)"
  by (induction qs arbitrary: a) (simp_all add: mult.assoc)

lemma prod_ratios_from:
  "0 \<notin> set (p # qs) \<Longrightarrow> t \<le> length qs \<Longrightarrow>
     prod_list (take t (ratios_from p qs)) = (p # qs) ! t / p"
proof (induction qs arbitrary: p t)
  case Nil
  then show ?case by simp
next
  case (Cons q qs)
  show ?case
  proof (cases t)
    case 0
    with Cons.prems show ?thesis by simp
  next
    case (Suc j)
    with Cons.prems have "prod_list (take j (ratios_from q qs)) = (q # qs) ! j / q"
      by (intro Cons.IH) auto
    with Suc Cons.prems show ?thesis by simp
  qed
qed

lemma length_cumprod_from: "length (cumprod_from a s) = length s"
  by (induction s arbitrary: a) simp_all

lemma length_pct_change: "length (pct_change s) = length s"
  by (cases s) (simp_all add: pct_change_def)

lemma fsub_fadd_one: "fadd (fsub v (Fin 1)) (Fin 1) = v"
  by (cases v) (simp_all add: fsub_def)

text \<open>
  Claim C3, as stated: for every index \<open>t\<close>, the cumulative return plus 1 equals the
  product of \<open>1 + daily_returns[i]\<close> over all \<open>i \<le> t\<close>. The daily return of the first
  date is missing by construction. For the prices 100, 110: at \<open>t = 0\<close> the cumulative
  return is NaN, which equals nothing; at \<open>t = 1\<close> the cumulative return plus 1 is 1.1,
  while the product over \<open>i \<le> 1\<close> has the missing factor of date 0 and is NaN.
  Prices that are zero leave further daily returns missing or infinite: for the prices
  0, 0, 3 the cumulative return at \<open>t = 2\<close> is infinite, while the product from
  \<open>i = 1\<close> on has a missing factor.
\<close>

theorem compounding_counterexample:
  "cumulative_returns (pct_change [Fin 100, Fin 110]) = [NaN, Fin (1 / 10)]
   \<and> \<not> feq (fadd (cumulative_returns (pct_change [Fin 100, Fin 110]) ! 0) (Fin 1))
            (compound (pct_change [Fin 100, Fin 110]) 0 0)
   \<and> fadd (cumulative_returns (pct_change [Fin 100, Fin 110]) ! 1) (Fin 1) = Fin (11 / 10)
   \<and> compound (pct_change [Fin 100, Fin 110]) 0 1 = NaN
   \<and> pct_change [Fin 0, Fin 0, Fin 3] = [NaN, NaN, PInf]
   \<and> fadd (cumulative_returns (pct_change [Fin 0, Fin 0, Fin 3]) ! 2) (Fin 1) = PInf
   \<and> compound (pct_change [Fin 0, Fin 0, Fin 3]) 1 2 = NaN"
  by (simp add: cumulative_returns_def pct_change_def series_add1_def series_sub1_def
        cumprod_def compound_def feq_def fsub_def signed_inf_def)

text \<open>
  Claim C3, amended: for every price series of finite non-zero prices (none missing)
  and every index \<open>t \<ge> 1\<close>, the cumulative return at \<open>t\<close> plus 1 equals the product of
  \<open>1 + daily_returns[i]\<close> over \<open>1 \<le> i \<le> t\<close>, which is \<open>price[t] / price[0]\<close>; at
  index 0 the daily return and the cumulative return are missing.
\<close>

theorem compounding_identity:
  assumes "0 \<notin> set ps" and "1 \<le> t" and "t < length ps"
  shows "fadd (cumulative_returns (pct_change (map Fin ps)) ! t) (Fin 1)
           = compound (pct_change (map Fin ps)) 1 t
         \<and> compound (pct_change (map Fin ps)) 1 t = Fin (ps ! t / ps ! 0)
         \<and> pct_change (map Fin ps) ! 0 = NaN
         \<and> cumulative_returns (pct_change (map Fin ps)) ! 0 = NaN"
proof -
  from assms obtain p qs where ps: "ps = p # qs" by (cases ps) auto
  from assms obtain k where t: "t = Suc k" by (cases t) auto
  from assms ps t have k: "k < length qs" by simp
  from assms ps have nz: "0 \<notin> set (p # qs)" by simp
  have a1: "series_add1 (pct_change (map Fin ps)) = NaN # map Fin (ratios_from p qs)"
    unfolding ps using nz by (rule series_add1_pct_change)
  have lr: "length (ratios_from p qs) = length qs" by (induction qs arbitrary: p) simp_all
  have tel: "prod_list (take (Suc k) (ratios_from p qs)) = ps ! t / ps ! 0"
    using prod_ratios_from [OF nz, of "Suc k"] k by (simp add: ps t)
  have "cumprod (NaN # map Fin (ratios_from p qs)) ! t
          = cumprod_from (Fin 1) (map Fin (ratios_from p qs)) ! k"
    by (simp add: cumprod_def t)
  also have "\<dots> = Fin (1 * prod_list (take (Suc k) (ratios_from p qs)))"
    using k lr by (intro cumprod_from_finite_nth) simp
  finally have w: "cumprod (series_add1 (pct_change (map Fin ps))) ! t = Fin (ps ! t / ps ! 0)"
    using a1 tel by simp
  have len: "t < length (cumprod (series_add1 (pct_change (map Fin ps))))"
    using assms(3) by (simp add: cumprod_def series_add1_def length_cumprod_from length_pct_change)
  have lhs: "fadd (cumulative_returns (pct_change (map Fin ps)) ! t) (Fin 1) = Fin (ps ! t / ps ! 0)"
    unfolding cumulative_returns_def series_sub1_def using len w
    by (simp add: fsub_fadd_one)
  have "map (fadd (Fin 1)) (drop 1 (take (Suc t) (pct_change (map Fin ps))))
          = drop 1 (take (Suc t) (series_add1 (pct_change (map Fin ps))))"
    by (simp add: series_add1_def drop_map take_map)
  also have "\<dots> = map Fin (take (Suc k) (ratios_from p qs))"
    unfolding a1 by (simp add: t take_map)
  finally have rhs: "compound (pct_change (map Fin ps)) 1 t = Fin (ps ! t / ps ! 0)"
    unfolding compound_def using tel by (simp add: foldl_fmul_map_Fin)
  have first: "pct_change (map Fin ps) ! 0 = NaN"
    by (simp add: ps pct_change_def)
  have "cumulative_returns (pct_change (map Fin ps)) ! 0 = NaN"
    unfolding cumulative_returns_def a1 by (simp add: cumprod_def series_sub1_def fsub_def)
  with lhs rhs first show ?thesis by simp
qed

theorem compounding_identity_witness:
  "(0::real) \<notin> set [100, 110, 99] \<and> (1::nat) \<le> 2 \<and> (2::nat) < length [100, 110, 99 :: real]
   \<and> fadd (cumulative_returns (pct_change (map Fin [100, 110, 99])) ! 2) (Fin 1)
       = compound (pct_change (map Fin [100, 110, 99])) 1 2
   \<and> compound (pct_change (map Fin [100, 110, 99])) 1 2 = Fin (99 / 100)"
  using compounding_identity [of "[100, 110, 99]" 2] by simp

section \<open>Maximum drawdown\<close>


















end
